theory Spec2Isabelle
  imports Complex_Main "HOL-Library.AList"
begin

section \<open>JavaScript values\<close>

text \<open>
  The seed script and the SCIM route are TypeScript over untyped data: the generated
  objects are \<^verbatim>\<open>any[]\<close>, request bodies are parsed JSON, and the ORM takes and returns
  plain objects. Values are therefore modelled as JavaScript values. An object is an
  association list of its own properties, in insertion order; a property that is not
  there reads as \<open>JUndefined\<close>. A string is the list of the bytes of its UTF-8 encoding.
  The numbers inside JSON values are rationals; the numbers that \<^verbatim>\<open>parseInt\<close> returns
  and the route computes with are doubles, modelled below with their rounding.
\<close>

datatype json =
    JUndefined
  | JNull
  | JBool bool
  | JNum rat
  | JStr string
  | JArr "json list"
  | JObj "(string \<times> json) list"

text \<open>ToBoolean: what \<^verbatim>\<open>!x\<close>, \<^verbatim>\<open>x && y\<close>, \<^verbatim>\<open>x || y\<close> and \<^verbatim>\<open>x ? a : b\<close> test.\<close>

fun truthy :: "json \<Rightarrow> bool" where
  "truthy JUndefined = False"
| "truthy JNull = False"
| "truthy (JBool b) = b"
| "truthy (JNum n) = (n \<noteq> 0)"
| "truthy (JStr s) = (s \<noteq> [])"
| "truthy (JArr xs) = True"
| "truthy (JObj fs) = True"

text \<open>
  Property read \<^verbatim>\<open>o.k\<close> on a value that is neither null nor undefined. None of the names
  read in the sources is a property of a primitive or of an array.
\<close>

fun fld :: "json \<Rightarrow> string \<Rightarrow> json" where
  "fld (JObj fs) k = (case map_of fs k of Some v \<Rightarrow> v | None \<Rightarrow> JUndefined)"
| "fld v k = JUndefined"

text \<open>\<^verbatim>\<open>a || b\<close> on values.\<close>

definition js_or :: "json \<Rightarrow> json \<Rightarrow> json" where
  "js_or a b = (if truthy a then a else b)"

text \<open>
  The letters \<^verbatim>\<open>A\<close> to \<^verbatim>\<open>Z\<close> in lower case, every other byte as it is: how a regular
  expression with the flag \<^verbatim>\<open>i\<close> and without the flag \<^verbatim>\<open>u\<close> compares with an ASCII
  letter of its pattern (a character outside ASCII never matches one).
\<close>

definition ascii_lower :: "char \<Rightarrow> char" where
  "ascii_lower c =
     (case map_of (zip ''ABCDEFGHIJKLMNOPQRSTUVWXYZ'' ''abcdefghijklmnopqrstuvwxyz'') c of
        Some l \<Rightarrow> l
      | None \<Rightarrow> c)"

definition digit_char :: "nat \<Rightarrow> char" where
  "digit_char d = ''0123456789'' ! d"

text \<open>The decimal numeral of a number, as \<^verbatim>\<open>String\<close> and a template literal print it.\<close>

function show_nat :: "nat \<Rightarrow> string" where
  "show_nat n = (if n < 10 then [digit_char n] else show_nat (n div 10) @ [digit_char (n mod 10)])"
  by pat_completeness auto
termination
  by (relation "measure id") auto

subsection \<open>Doubles\<close>

text \<open>
  The values \<^verbatim>\<open>parseInt\<close> can return: NaN, an integer that is a double, and the two
  infinities.
\<close>

datatype number = NaN | Finite int | PosInfinity | NegInfinity

function bit_length :: "nat \<Rightarrow> nat" where
  "bit_length n = (if n = 0 then 0 else Suc (bit_length (n div 2)))"
  by pat_completeness auto
termination
  by (relation "measure id") auto

declare bit_length.simps [simp del]

text \<open>
  The double nearest to an integer, ties to the even significand of 53 bits, and an
  infinity from \<open>2 ^ 1024\<close> on.
\<close>

definition double_overflow :: nat where
  "double_overflow = 2 ^ 1024"

definition to_double :: "int \<Rightarrow> number" where
  "to_double n =
     (let a = nat \<bar>n\<bar>;
          e = bit_length a - 53;
          q = a div 2 ^ e;
          r = a mod 2 ^ e;
          up = (2 ^ e < 2 * r \<or> (2 * r = 2 ^ e \<and> odd q));
          m = (if up then q + 1 else q) * 2 ^ e
      in if double_overflow \<le> m then (if n < 0 then NegInfinity else PosInfinity)
         else Finite (if n < 0 then - int m else int m))"

text \<open>\<^verbatim>\<open>x - 1\<close> on doubles.\<close>

definition minus_one :: "number \<Rightarrow> number" where
  "minus_one x = (case x of Finite n \<Rightarrow> to_double (n - 1) | y \<Rightarrow> y)"

text \<open>A number in a JSON response: what is not finite is written \<^verbatim>\<open>null\<close>.\<close>

definition number_json :: "number \<Rightarrow> json" where
  "number_json x = (case x of Finite n \<Rightarrow> JNum (of_int n) | y \<Rightarrow> JNull)"

section \<open>The ORM over a relational store\<close>

text \<open>
  The database schema is not among the sources. A table is the list of its rows, a row
  the association list of its columns; a column that is not there reads as SQL NULL.
  The unique keys are the ones the sources themselves name in a \<^verbatim>\<open>where\<close> of
  \<^verbatim>\<open>upsert\<close> or \<^verbatim>\<open>findUnique\<close>, which the ORM only accepts for a unique key.
  Foreign keys are not modelled. The column defaults of the schema, the bound of the
  integers the ORM takes, and the order of the database on ids are parameters of the
  store.
\<close>

datatype model =
    User | Organization | Project | OrganizationMembership | ProjectMembership
  | Prompt | ApiKey | ScoreConfig | AnnotationQueue | TraceSession | Comment
  | AnnotationQueueItem | LlmApiKeys | EvalTemplate | JobConfiguration
  | Dataset | DatasetItem | DatasetRuns | DatasetRunItems
  | DashboardWidget | Dashboard | LlmSchema

type_synonym row = "(string \<times> json) list"

type_synonym database = "model \<Rightarrow> row list"

datatype prisma_error = UniqueConstraintFailed model | ValidationError

definition col :: "row \<Rightarrow> string \<Rightarrow> json" where
  "col r k = (case map_of r k of Some v \<Rightarrow> v | None \<Rightarrow> JNull)"

text \<open>A \<^verbatim>\<open>where\<close> object as column equalities (a compound key is written flat).\<close>

definition matches :: "row \<Rightarrow> row \<Rightarrow> bool" where
  "matches w r = list_all (\<lambda>(k, v). col r k = v) w"

fun uniques :: "model \<Rightarrow> string list list" where
  "uniques User = [[''id''], [''email'']]"
| "uniques Organization = [[''id'']]"
| "uniques Project = [[''id'']]"
| "uniques OrganizationMembership = [[''id''], [''orgId'', ''userId'']]"
| "uniques ProjectMembership = [[''projectId'', ''userId'']]"
| "uniques Prompt = [[''id''], [''projectId'', ''name'', ''version'']]"
| "uniques ApiKey = [[''id'']]"
| "uniques ScoreConfig = [[''id'', ''projectId'']]"
| "uniques AnnotationQueue = [[''id''], [''projectId'', ''name'']]"
| "uniques TraceSession = [[''id'', ''projectId'']]"
| "uniques EvalTemplate = [[''id''], [''projectId'', ''name'', ''version'']]"
| "uniques JobConfiguration = [[''id'']]"
| "uniques Dataset = [[''id'']]"
| "uniques DatasetRuns = [[''id''], [''datasetId'', ''projectId'', ''name'']]"
| "uniques DashboardWidget = [[''id'']]"
| "uniques Dashboard = [[''id'']]"
| "uniques m = []"

definition key_of :: "string list \<Rightarrow> row \<Rightarrow> json list" where
  "key_of ks r = map (col r) ks"

text \<open>Two rows clash on a key when they agree on it and none of its columns is NULL.\<close>

definition clashes :: "row \<Rightarrow> row \<Rightarrow> string list \<Rightarrow> bool" where
  "clashes r r' ks \<longleftrightarrow> JNull \<notin> set (key_of ks r) \<and> key_of ks r = key_of ks r'"

definition violates :: "model \<Rightarrow> row list \<Rightarrow> row \<Rightarrow> bool" where
  "violates m rows r \<longleftrightarrow> list_ex (\<lambda>ks. list_ex (\<lambda>r'. clashes r r' ks) rows) (uniques m)"

text \<open>
  The store, with the source of the ids the database generates: \<open>cuid k\<close> is the
  \<open>k\<close>-th generated id, \<open>issued\<close> counts the ids handed out. \<open>column_defaults m\<close> are the
  values the schema gives to the columns of a new row of \<open>m\<close> that come with a default
  (the time of creation and of the last update among them), \<open>int_bound\<close> is the largest
  integer the ORM takes for \<^verbatim>\<open>skip\<close> and \<^verbatim>\<open>take\<close>, and \<open>id_le\<close> is the order of the
  database on ids.
\<close>

record world =
  tables :: database
  cuid :: "nat \<Rightarrow> string"
  issued :: nat
  column_defaults :: "model \<Rightarrow> row"
  int_bound :: int
  id_le :: "json \<Rightarrow> json \<Rightarrow> bool"

definition defined_columns :: "row \<Rightarrow> row" where
  "defined_columns data = filter (\<lambda>(k, v). v \<noteq> JUndefined) data"

text \<open>The columns of a new row: the ones given, then the defaults of the others.\<close>

definition with_defaults :: "row \<Rightarrow> row \<Rightarrow> row" where
  "with_defaults r defaults = r @ filter (\<lambda>(k, v). map_of r k = None) defaults"

text \<open>
  \<^verbatim>\<open>create\<close>: properties that are \<^verbatim>\<open>undefined\<close> are left out, an id is generated when
  none is given, the columns that are not given take their default, and the insert fails
  on a unique key that is taken.
\<close>

definition create :: "model \<Rightarrow> row \<Rightarrow> world \<Rightarrow> prisma_error + (row \<times> world)" where
  "create m data w =
     (let d = defined_columns data;
          given = (map_of d ''id'' \<noteq> None);
          r = with_defaults (if given then d else (''id'', JStr (cuid w (issued w))) # d)
                (column_defaults w m);
          w' = (if given then w else w\<lparr>issued := Suc (issued w)\<rparr>)
      in if violates m (tables w m) r then Inl (UniqueConstraintFailed m)
         else Inr (r, w'\<lparr>tables := (tables w)(m := tables w m @ [r])\<rparr>))"

definition apply_update :: "row \<Rightarrow> row \<Rightarrow> row" where
  "apply_update r u = fold (\<lambda>(k, v) acc. AList.update k v acc) (defined_columns u) r"

fun find_index :: "('a \<Rightarrow> bool) \<Rightarrow> 'a list \<Rightarrow> nat option" where
  "find_index P [] = None"
| "find_index P (x # xs) =
     (if P x then Some 0 else map_option Suc (find_index P xs))"

definition without :: "nat \<Rightarrow> 'a list \<Rightarrow> 'a list" where
  "without i xs = take i xs @ drop (Suc i) xs"

text \<open>
  \<^verbatim>\<open>upsert\<close>: the row the \<^verbatim>\<open>where\<close> finds is updated, and when there is none the
  \<^verbatim>\<open>create\<close> data is inserted. An update that changes nothing writes nothing.
\<close>

definition upsert ::
  "model \<Rightarrow> row \<Rightarrow> row \<Rightarrow> row \<Rightarrow> world \<Rightarrow> prisma_error + (row \<times> world)" where
  "upsert m wh cr up w =
     (case find_index (matches wh) (tables w m) of
        None \<Rightarrow> create m cr w
      | Some i \<Rightarrow>
          (let r = tables w m ! i; r' = apply_update r up
           in if r' = r then Inr (r, w)
              else if violates m (without i (tables w m)) r' then Inl (UniqueConstraintFailed m)
              else Inr (r', w\<lparr>tables := (tables w)(m := (tables w m)[i := r'])\<rparr>)))"

definition findUnique :: "model \<Rightarrow> row \<Rightarrow> world \<Rightarrow> row option" where
  "findUnique m wh w = find (matches wh) (tables w m)"

text \<open>
  \<^verbatim>\<open>skip\<close> and \<^verbatim>\<open>take\<close> of \<^verbatim>\<open>findMany\<close>. The ORM takes for each an integer within
  its bound and refuses every other number; it refuses a negative \<^verbatim>\<open>skip\<close>, and a negative
  \<^verbatim>\<open>take\<close> counts from the end of the list.
\<close>

definition orm_int :: "int \<Rightarrow> number \<Rightarrow> int option" where
  "orm_int bound x =
     (case x of
        Finite n \<Rightarrow> if - bound \<le> n \<and> n \<le> bound then Some n else None
      | y \<Rightarrow> None)"

definition paginate :: "int \<Rightarrow> number \<Rightarrow> number \<Rightarrow> 'a list \<Rightarrow> prisma_error + 'a list" where
  "paginate bound skip tk xs =
     (case orm_int bound skip of
        None \<Rightarrow> Inl ValidationError
      | Some s \<Rightarrow>
          (case orm_int bound tk of
             None \<Rightarrow> Inl ValidationError
           | Some t \<Rightarrow>
               if s < 0 then Inl ValidationError
               else if 0 \<le> t then Inr (take (nat t) (drop (nat s) xs))
               else Inr (rev (take (nat (- t)) (drop (nat s) (rev xs))))))"

text \<open>
  With \<^verbatim>\<open>skip\<close> and \<^verbatim>\<open>take\<close> the rows come in the order of their ids: a stable insertion
  sort by the order of the database.
\<close>

fun insert_by :: "('a \<Rightarrow> 'a \<Rightarrow> bool) \<Rightarrow> 'a \<Rightarrow> 'a list \<Rightarrow> 'a list" where
  "insert_by le x [] = [x]"
| "insert_by le x (y # ys) = (if le x y then x # y # ys else y # insert_by le x ys)"

definition order_by :: "('a \<Rightarrow> 'a \<Rightarrow> bool) \<Rightarrow> 'a list \<Rightarrow> 'a list" where
  "order_by le xs = foldr (insert_by le) xs []"
section \<open>The SCIM Users route\<close>

text \<open>
  The handler of \<^verbatim>\<open>/api/public/scim/Users\<close>, from the point where the CORS middleware
  has returned. The authentication service, \<^verbatim>\<open>JSON.parse\<close>, \<^verbatim>\<open>JSON.stringify\<close>, the
  password hash and \<^verbatim>\<open>String.prototype.toLowerCase\<close> (which follows the Unicode case
  mapping) are not among the sources and are parameters. So is the reading the ORM makes
  of a value that is not a string where the email of a user is compared: \<open>None\<close> when
  it refuses the value, and the condition on the email when it takes it as a filter.
\<close>

record scope =
  accessLevel :: string
  orgId :: "string option"

datatype authCheck = InvalidKey string | ValidKey scope

record scim_env =
  verifyAuthHeaderAndReturnScope :: "string option \<Rightarrow> authCheck"
  JSON_parse :: "string \<Rightarrow> json option"
  JSON_stringify :: "json \<Rightarrow> string"
  hashPassword :: "json \<Rightarrow> string option"
  toLowerCase :: "string \<Rightarrow> string"
  email_filter :: "json \<Rightarrow> (json \<Rightarrow> bool) option"

text \<open>A query parameter is absent, one string, or a list of strings.\<close>

datatype qval = QAbsent | QStr string | QArr "string list"

record query =
  filter_param :: qval
  startIndex :: qval
  count_param :: qval

record request =
  req_method :: string
  authorization :: "string option"
  req_query :: query
  req_body :: json

record response =
  status :: nat
  body :: json

definition scim_error :: "nat \<Rightarrow> string \<Rightarrow> response" where
  "scim_error code detail =
     \<lparr>status = code,
      body = JObj [(''schemas'', JArr [JStr ''urn:ietf:params:scim:api:messages:2.0:Error'']),
                   (''detail'', JStr detail),
                   (''status'', JNum (of_nat code))]\<rparr>"

definition internal_error :: response where
  "internal_error = scim_error 500 ''Internal server error''"

subsection \<open>Parsing the query\<close>

text \<open>
  The white space and the line terminators of the language, in UTF-8: U+0009 to U+000D,
  U+0020, U+00A0, U+1680, U+2000 to U+200A, U+2028, U+2029, U+202F, U+205F, U+3000 and
  U+FEFF.
\<close>

definition white_space :: "string list" where
  "white_space =
     [[CHR 0x09], [CHR 0x0A], [CHR 0x0B], [CHR 0x0C], [CHR 0x0D], [CHR 0x20],
      [CHR 0xC2, CHR 0xA0], [CHR 0xE1, CHR 0x9A, CHR 0x80],
      [CHR 0xE2, CHR 0x80, CHR 0x80], [CHR 0xE2, CHR 0x80, CHR 0x81],
      [CHR 0xE2, CHR 0x80, CHR 0x82], [CHR 0xE2, CHR 0x80, CHR 0x83],
      [CHR 0xE2, CHR 0x80, CHR 0x84], [CHR 0xE2, CHR 0x80, CHR 0x85],
      [CHR 0xE2, CHR 0x80, CHR 0x86], [CHR 0xE2, CHR 0x80, CHR 0x87],
      [CHR 0xE2, CHR 0x80, CHR 0x88], [CHR 0xE2, CHR 0x80, CHR 0x89],
      [CHR 0xE2, CHR 0x80, CHR 0x8A], [CHR 0xE2, CHR 0x80, CHR 0xA8],
      [CHR 0xE2, CHR 0x80, CHR 0xA9], [CHR 0xE2, CHR 0x80, CHR 0xAF],
      [CHR 0xE2, CHR 0x81, CHR 0x9F], [CHR 0xE3, CHR 0x80, CHR 0x80],
      [CHR 0xEF, CHR 0xBB, CHR 0xBF]]"

text \<open>What follows a white space character at the start of a string.\<close>

definition after_space :: "string \<Rightarrow> string option" where
  "after_space s =
     map_option (\<lambda>sp. drop (length sp) s)
       (find (\<lambda>sp. sp \<noteq> [] \<and> take (length sp) s = sp) white_space)"

lemma after_space_shorter: "after_space s = Some r \<Longrightarrow> length r < length s"
proof -
  assume "after_space s = Some r"
  then obtain sp where sp: "find (\<lambda>sp. sp \<noteq> [] \<and> take (length sp) s = sp) white_space = Some sp"
    and r: "r = drop (length sp) s"
    by (auto simp: after_space_def)
  from sp have "sp \<noteq> []" "take (length sp) s = sp"
    by (auto simp: find_Some_iff)
  then have "0 < length sp" "length (take (length sp) s) = length sp"
    by simp_all
  then have "0 < length sp" "length sp \<le> length s"
    by simp_all
  with r show ?thesis by (cases sp) auto
qed

function trim_start :: "string \<Rightarrow> string" where
  "trim_start s = (case after_space s of None \<Rightarrow> s | Some r \<Rightarrow> trim_start r)"
  by pat_completeness auto
termination
  by (relation "measure length") (auto dest: after_space_shorter)

definition is_digit :: "char \<Rightarrow> bool" where
  "is_digit c \<longleftrightarrow> 48 \<le> (of_char c :: nat) \<and> (of_char c :: nat) \<le> 57"

definition digit_val :: "char \<Rightarrow> int" where
  "digit_val c = int (of_char c) - 48"

text \<open>
  \<^verbatim>\<open>parseInt(s, 10)\<close>: leading white space, a sign, then the longest run of digits, read
  as the double nearest to the integer they write (as the engine of Node does for
  radix 10); NaN when there is no digit.
\<close>

definition parseInt :: "string \<Rightarrow> number" where
  "parseInt s =
     (let t = trim_start s;
          neg = (t \<noteq> [] \<and> hd t = CHR ''-'');
          u = (if t \<noteq> [] \<and> (hd t = CHR ''-'' \<or> hd t = CHR ''+'') then tl t else t);
          ds = takeWhile is_digit u
      in if ds = [] then NaN
         else to_double ((if neg then - 1 else 1) * foldl (\<lambda>a c. a * 10 + digit_val c) 0 ds))"

fun join_comma :: "string list \<Rightarrow> string" where
  "join_comma [] = []"
| "join_comma [x] = x"
| "join_comma (x # y # ys) = x @ '','' @ join_comma (y # ys)"

text \<open>
  \<^verbatim>\<open>x || d\<close> on a number: NaN and zero give the default.
\<close>

definition or_default :: "number \<Rightarrow> nat \<Rightarrow> number" where
  "or_default x d =
     (case x of
        NaN \<Rightarrow> Finite (int d)
      | Finite n \<Rightarrow> if n = 0 then Finite (int d) else Finite n
      | y \<Rightarrow> y)"

text \<open>
  \<^verbatim>\<open>parseInt(p as string, 10) || d\<close> with \<^verbatim>\<open>p\<close> destructured with default \<^verbatim>\<open>d\<close>: the
  default is read through its numeral, an array through its elements joined by commas.
\<close>

definition query_int :: "qval \<Rightarrow> nat \<Rightarrow> number" where
  "query_int q d =
     or_default
       (parseInt (case q of QAbsent \<Rightarrow> show_nat d | QStr s \<Rightarrow> s | QArr xs \<Rightarrow> join_comma xs))
       d"

definition quote :: char where
  "quote = CHR 0x22"

text \<open>The regular expression \<^verbatim>\<open>/userName eq "([^"]+)"/i\<close> anchored at the start.\<close>

definition match_here :: "string \<Rightarrow> string option" where
  "match_here s =
     (let p = ''username eq '' @ [quote]
      in if map ascii_lower (take (length p) s) = p
         then (let rest = drop (length p) s;
                   captured = takeWhile (\<lambda>c. c \<noteq> quote) rest;
                   after = dropWhile (\<lambda>c. c \<noteq> quote) rest
               in if captured \<noteq> [] \<and> after \<noteq> [] then Some captured else None)
         else None)"

text \<open>\<^verbatim>\<open>filter.match(...)\<close>: the leftmost match, its first group.\<close>

fun filter_match :: "string \<Rightarrow> string option" where
  "filter_match [] = None"
| "filter_match (c # s) =
     (case match_here (c # s) of Some m \<Rightarrow> Some m | None \<Rightarrow> filter_match s)"

subsection \<open>GET\<close>

text \<open>
  The memberships of an organization whose user satisfies a condition, each with its
  user, in table order.
\<close>

definition memberships_where ::
  "database \<Rightarrow> (row \<Rightarrow> bool) \<Rightarrow> string \<Rightarrow> (row \<times> row) list" where
  "memberships_where db userWhere org =
     List.map_filter
       (\<lambda>m. if col m ''orgId'' = JStr org \<and> col m ''userId'' \<noteq> JNull
            then (case find (\<lambda>u. col u ''id'' = col m ''userId'') (db User) of
                    Some u \<Rightarrow> if userWhere u then Some (m, u) else None
                  | None \<Rightarrow> None)
            else None)
       (db OrganizationMembership)"

text \<open>The memberships in the order of their ids, as \<^verbatim>\<open>findMany\<close> pages them.\<close>

definition by_membership_id :: "world \<Rightarrow> (row \<times> row) list \<Rightarrow> (row \<times> row) list" where
  "by_membership_id w ms = order_by (\<lambda>a b. id_le w (col (fst a) ''id'') (col (fst b) ''id'')) ms"

definition scim_list_user :: "row \<Rightarrow> json" where
  "scim_list_user user =
     JObj [(''schemas'', JArr [JStr ''urn:ietf:params:scim:schemas:core:2.0:User'']),
           (''id'', col user ''id''),
           (''userName'', col user ''email''),
           (''name'', JObj [(''formatted'', col user ''name'')]),
           (''emails'', JArr [JObj [(''primary'', JBool True),
                                    (''value'', col user ''email''),
                                    (''type'', JStr ''work'')]]),
           (''meta'', JObj [(''resourceType'', JStr ''User'')])]"

definition filter_where :: "scim_env \<Rightarrow> qval \<Rightarrow> row" where
  "filter_where env f =
     (case f of
        QStr s \<Rightarrow> (case filter_match s of
                     Some m \<Rightarrow> [(''email'', JStr (toLowerCase env m))]
                   | None \<Rightarrow> [])
      | _ \<Rightarrow> [])"

definition scim_get :: "scim_env \<Rightarrow> world \<Rightarrow> string \<Rightarrow> query \<Rightarrow> response" where
  "scim_get env w org q =
     (let parsedStartIndex = query_int (startIndex q) 1;
          parsedCount = query_int (count_param q) 100;
          whereClause = filter_where env (filter_param q);
          totalCount = length (memberships_where (tables w) (matches whereClause) org)
      in case paginate (int_bound w) (minus_one parsedStartIndex) parsedCount
                (by_membership_id w (memberships_where (tables w) (matches whereClause) org)) of
           Inl e \<Rightarrow> internal_error
         | Inr userMapping \<Rightarrow>
             (let scimUsers = map (\<lambda>userMap. scim_list_user (snd userMap)) userMapping
              in \<lparr>status = 200,
                  body = JObj [(''schemas'',
                                 JArr [JStr ''urn:ietf:params:scim:api:messages:2.0:ListResponse'']),
                               (''totalResults'', JNum (of_nat totalCount)),
                               (''startIndex'', number_json parsedStartIndex),
                               (''itemsPerPage'', JNum (of_nat (length scimUsers))),
                               (''Resources'', JArr scimUsers)]\<rparr>))"

subsection \<open>POST\<close>

definition role_names :: "string list" where
  "role_names = [''OWNER'', ''ADMIN'', ''MEMBER'', ''VIEWER'', ''NONE'']"

fun is_role :: "json \<Rightarrow> bool" where
  "is_role (JStr s) = (s \<in> set role_names)"
| "is_role v = False"

text \<open>
  The role of the new membership: the first of a non-empty array of role names, and
  \<^verbatim>\<open>NONE\<close> when \<^verbatim>\<open>roles\<close> is falsy, not an array or empty. \<open>None\<close>: the array fails the
  schema.
\<close>

fun parse_roles :: "json \<Rightarrow> string option" where
  "parse_roles (JArr (JStr r # rs)) = (if list_all is_role (JStr r # rs) then Some r else None)"
| "parse_roles (JArr (x # xs)) = None"
| "parse_roles v = Some ''NONE''"

text \<open>\<^verbatim>\<open>name?.formatted || displayName\<close>\<close>

definition formatted_or :: "json \<Rightarrow> json \<Rightarrow> json" where
  "formatted_or name displayName =
     js_or (if name = JNull \<or> name = JUndefined then JUndefined else fld name ''formatted'')
           displayName"

text \<open>A value the ORM accepts for an optional string column.\<close>

fun optional_string :: "json \<Rightarrow> bool" where
  "optional_string (JStr s) = True"
| "optional_string JNull = True"
| "optional_string JUndefined = True"
| "optional_string v = False"

text \<open>\<^verbatim>\<open>d?.toISOString()\<close> of a timestamp column; dates are kept as the column holds them.\<close>

definition iso :: "json \<Rightarrow> json" where
  "iso d = (if d = JNull then JUndefined else d)"

definition scim_created_user :: "row \<Rightarrow> json" where
  "scim_created_user user =
     JObj [(''schemas'', JArr [JStr ''urn:ietf:params:scim:schemas:core:2.0:User'']),
           (''id'', col user ''id''),
           (''userName'', col user ''email''),
           (''name'', JObj [(''formatted'', col user ''name'')]),
           (''emails'', JArr [JObj [(''primary'', JBool True),
                                    (''value'', col user ''email''),
                                    (''type'', JStr ''work'')]]),
           (''meta'', JObj [(''resourceType'', JStr ''User''),
                            (''created'', iso (col user ''createdAt'')),
                            (''lastModified'', iso (col user ''updatedAt''))])]"

text \<open>
  The two writes of a POST, after the checks: the user is upserted by its lower-cased
  email, then the membership is created. Each is its own statement: a failure of the
  second leaves the first in place.
\<close>

definition create_member ::
  "scim_env \<Rightarrow> world \<Rightarrow> string \<Rightarrow> string \<Rightarrow> json \<Rightarrow> json \<Rightarrow> string \<Rightarrow> response \<times> world" where
  "create_member env w org u nm pw role =
     (if \<not> optional_string nm then (internal_error, w)
      else case upsert User [(''email'', JStr (toLowerCase env u))]
                  [(''email'', JStr (toLowerCase env u)), (''name'', nm), (''password'', pw)] [] w of
             Inl e \<Rightarrow> (internal_error, w)
           | Inr (user, w1) \<Rightarrow>
               (case create OrganizationMembership
                       [(''userId'', col user ''id''), (''orgId'', JStr org), (''role'', JStr role)]
                       w1 of
                  Inl e \<Rightarrow> (internal_error, w1)
                | Inr (membership, w2) \<Rightarrow>
                    (\<lparr>status = 201, body = scim_created_user user\<rparr>, w2)))"

text \<open>
  The body is parsed when it is a string, then destructured inside the \<^verbatim>\<open>try\<close>: on \<^verbatim>\<open>null\<close> and \<^verbatim>\<open>undefined\<close> that throws,
  and the \<^verbatim>\<open>catch\<close> answers 500. A \<^verbatim>\<open>userName\<close> that is truthy and not a string goes to
  the ORM as it is: when the ORM refuses it the answer is 500; when the ORM reads it as a
  filter, a member that satisfies it gives 409, and without one the call of
  \<^verbatim>\<open>userName.toLowerCase\<close>, which is not a function, throws before any write.
\<close>

definition find_or_create ::
  "scim_env \<Rightarrow> world \<Rightarrow> string \<Rightarrow> json \<Rightarrow> string \<Rightarrow> response \<times> world" where
  "find_or_create env w org b role =
     (case fld b ''userName'' of
        JStr u \<Rightarrow>
          if memberships_where (tables w) (matches [(''email'', JStr u)]) org \<noteq> []
          then (scim_error 409 ''User with this userName already exists'', w)
          else if \<not> truthy (fld b ''password'')
          then create_member env w org u
                 (formatted_or (fld b ''name'') (fld b ''displayName'')) JUndefined role
          else (case hashPassword env (fld b ''password'') of
                  None \<Rightarrow> (internal_error, w)
                | Some h \<Rightarrow>
                    create_member env w org u
                      (formatted_or (fld b ''name'') (fld b ''displayName'')) (JStr h) role)
      | v \<Rightarrow>
          (case email_filter env v of
             None \<Rightarrow> (internal_error, w)
           | Some p \<Rightarrow>
               if memberships_where (tables w) (\<lambda>r. p (col r ''email'')) org \<noteq> []
               then (scim_error 409 ''User with this userName already exists'', w)
               else (internal_error, w)))"

definition scim_post :: "scim_env \<Rightarrow> world \<Rightarrow> string \<Rightarrow> json \<Rightarrow> response \<times> world" where
  "scim_post env w org body0 =
     (case (case body0 of JStr s \<Rightarrow> JSON_parse env s | _ \<Rightarrow> Some body0) of
        None \<Rightarrow> (scim_error 400 ''Invalid JSON body'', w)
      | Some b \<Rightarrow>
          if b = JNull \<or> b = JUndefined then (internal_error, w)
          else if \<not> truthy (fld b ''userName'')
          then (scim_error 400 ''userName is required'', w)
          else (case parse_roles (fld b ''roles'') of
                  None \<Rightarrow>
                    (scim_error 400
                       (''Invalid roles provided: '' @ JSON_stringify env (fld b ''roles'')
                          @ '', must be one of OWNER, ADMIN, MEMBER, VIEWER, NONE''), w)
                | Some role \<Rightarrow> find_or_create env w org b role))"

subsection \<open>The handler\<close>

definition handler :: "scim_env \<Rightarrow> world \<Rightarrow> request \<Rightarrow> response \<times> world" where
  "handler env w req =
     (if req_method req \<noteq> ''GET'' \<and> req_method req \<noteq> ''POST''
      then (scim_error 405 ''Method not allowed'', w)
      else case verifyAuthHeaderAndReturnScope env (authorization req) of
             InvalidKey e \<Rightarrow> (scim_error 401 e, w)
           | ValidKey sc \<Rightarrow>
               (case orgId sc of
                  None \<Rightarrow>
                    (scim_error 403
                       ''Invalid API key. Organization-scoped API key required for this operation.'', w)
                | Some org \<Rightarrow>
                    if accessLevel sc \<noteq> ''organization'' \<or> org = []
                    then (scim_error 403
                            ''Invalid API key. Organization-scoped API key required for this operation.'', w)
                    else if req_method req = ''GET'' then (scim_get env w org (req_query req), w)
                    else scim_post env w org (req_body req)))"

subsection \<open>Vocabulary for the properties of the route\<close>

text \<open>A request carries a valid key scoped to the organization \<open>org\<close>.\<close>

definition org_key :: "scim_env \<Rightarrow> request \<Rightarrow> string \<Rightarrow> bool" where
  "org_key env req org \<longleftrightarrow>
     (\<exists>sc. verifyAuthHeaderAndReturnScope env (authorization req) = ValidKey sc
         \<and> accessLevel sc = ''organization'' \<and> orgId sc = Some org \<and> org \<noteq> [])"

definition parsed_body :: "scim_env \<Rightarrow> request \<Rightarrow> json option" where
  "parsed_body env req =
     (case req_body req of JStr s \<Rightarrow> JSON_parse env s | _ \<Rightarrow> Some (req_body req))"

definition is_scim_error :: "response \<Rightarrow> bool" where
  "is_scim_error r \<longleftrightarrow>
     fld (body r) ''schemas'' = JArr [JStr ''urn:ietf:params:scim:api:messages:2.0:Error'']
     \<and> fld (body r) ''status'' = JNum (of_nat (status r))"

definition invalid_roles :: "json \<Rightarrow> bool" where
  "invalid_roles roles \<longleftrightarrow>
     (case roles of JArr xs \<Rightarrow> xs \<noteq> [] \<and> \<not> list_all is_role xs | _ \<Rightarrow> False)"

text \<open>The list response of a GET: the total, the start index and the page of users.\<close>

definition list_response :: "nat \<Rightarrow> int \<Rightarrow> row list \<Rightarrow> response" where
  "list_response n si users =
     \<lparr>status = 200,
      body = JObj [(''schemas'', JArr [JStr ''urn:ietf:params:scim:api:messages:2.0:ListResponse'']),
                   (''totalResults'', JNum (of_nat n)),
                   (''startIndex'', JNum (of_int si)),
                   (''itemsPerPage'', JNum (of_nat (length users))),
                   (''Resources'', JArr (map scim_list_user users))]\<rparr>"

text \<open>
  What a POST relies on in the store: users have distinct string ids, and the ids the
  database generates next are not in use.
\<close>

definition user_ids :: "world \<Rightarrow> json list" where
  "user_ids w = map (\<lambda>r. col r ''id'') (tables w User)"

fun is_string :: "json \<Rightarrow> bool" where
  "is_string (JStr s) = True"
| "is_string v = False"

definition users_keyed :: "world \<Rightarrow> bool" where
  "users_keyed w \<longleftrightarrow> distinct (user_ids w) \<and> list_all is_string (user_ids w)"

definition fresh_ids :: "world \<Rightarrow> bool" where
  "fresh_ids w \<longleftrightarrow>
     JStr (cuid w (issued w)) \<notin> set (user_ids w)
     \<and> list_all (\<lambda>m. col m ''id'' \<noteq> JStr (cuid w (issued w))
                    \<and> col m ''id'' \<noteq> JStr (cuid w (Suc (issued w)))
                    \<and> col m ''userId'' \<noteq> JStr (cuid w (issued w)))
          (tables w OrganizationMembership)"

text \<open>
  The role a POST asks for: the first of the roles, and \<^verbatim>\<open>NONE\<close> when there is none.
\<close>

definition first_role :: "json \<Rightarrow> string" where
  "first_role roles = (case roles of JArr (JStr r # rs) \<Rightarrow> r | _ \<Rightarrow> ''NONE'')"

text \<open>
  The effect of a successful POST for the email \<open>e\<close>: the user with that email is the one
  that was there or is appended, one membership of the organization is appended for it
  with the role, and no other table changes.
\<close>

definition member_created ::
  "world \<Rightarrow> world \<Rightarrow> string \<Rightarrow> string \<Rightarrow> string \<Rightarrow> row \<Rightarrow> row \<Rightarrow> bool" where
  "member_created w w' org e role user membership \<longleftrightarrow>
     col user ''email'' = JStr e
     \<and> (if list_ex (\<lambda>r. col r ''email'' = JStr e) (tables w User)
         then tables w' User = tables w User \<and> user \<in> set (tables w User)
         else tables w' User = tables w User @ [user]
              \<and> col user ''createdAt'' = col (column_defaults w User) ''createdAt''
              \<and> col user ''updatedAt'' = col (column_defaults w User) ''updatedAt'')
     \<and> tables w' OrganizationMembership = tables w OrganizationMembership @ [membership]
     \<and> col membership ''userId'' = col user ''id''
     \<and> col membership ''orgId'' = JStr org
     \<and> col membership ''role'' = JStr role
     \<and> list_all (\<lambda>m. tables w' m = tables w m)
          [Organization, Project, ProjectMembership, Prompt, ApiKey, ScoreConfig,
           AnnotationQueue, TraceSession, Comment, AnnotationQueueItem, LlmApiKeys,
           EvalTemplate, JobConfiguration, Dataset, DatasetItem, DatasetRuns,
           DatasetRunItems, DashboardWidget, Dashboard, LlmSchema]"
section \<open>The seed script: the generated objects\<close>

text \<open>
  \<^verbatim>\<open>createObjects\<close> is a function of its arguments and of what \<^verbatim>\<open>Math.random()\<close> and
  \<^verbatim>\<open>v4()\<close> return. Both are given by the environment as sequences, and the state \<open>gen\<close>
  counts the calls made so far; every call of the source is a call here, in the source's
  order, also where the drawn number only feeds a field that is left out. Left out are
  the timestamps (\<^verbatim>\<open>Date\<close> values), the model parameters (formatted floats) and the
  literal input and output texts of a generation. A draw is a multiple of \<open>2 ^ -53\<close> in
  \<open>[0, 1)\<close>, given by its numerator (taken modulo \<open>2 ^ 53\<close>).
\<close>

record seed_env =
  environment :: "string option"
  Math_random :: "nat \<Rightarrow> int"
  uuid_v4 :: "nat \<Rightarrow> string"
  bcrypt_hash :: "nat \<Rightarrow> string"
  SEED_SECRET_KEY :: "string option"
  OPENAI_API_KEY :: "string option"
  hashSecretKey :: "string \<Rightarrow> string"
  getDisplaySecretKey :: "string \<Rightarrow> string"
  encrypt :: "string \<Rightarrow> string"

record gen =
  drawn :: nat
  made :: nat

definition random_value :: "int \<Rightarrow> rat" where
  "random_value n = of_int (n mod 2 ^ 53) / 2 ^ 53"

definition random :: "seed_env \<Rightarrow> gen \<Rightarrow> rat \<times> gen" where
  "random env g = (random_value (Math_random env (drawn g)), g\<lparr>drawn := Suc (drawn g)\<rparr>)"

definition v4 :: "seed_env \<Rightarrow> gen \<Rightarrow> string \<times> gen" where
  "v4 env g = (uuid_v4 env (made g), g\<lparr>made := Suc (made g)\<rparr>)"

text \<open>\<^verbatim>\<open>Math.floor(x)\<close> of a number that is not negative, as an index.\<close>

definition floor_nat :: "rat \<Rightarrow> nat" where
  "floor_nat x = nat \<lfloor>x\<rfloor>"

text \<open>\<^verbatim>\<open>xs[Math.floor(r * xs.length)]\<close>; an index out of range reads \<^verbatim>\<open>undefined\<close>.\<close>

definition at_index :: "json list \<Rightarrow> nat \<Rightarrow> json" where
  "at_index xs i = (if i < length xs then xs ! i else JUndefined)"

definition pick :: "json list \<Rightarrow> rat \<Rightarrow> json" where
  "pick xs r = at_index xs (floor_nat (r * of_nat (length xs)))"

datatype js_error = TypeError

text \<open>The arrays \<^verbatim>\<open>createObjects\<close> fills.\<close>

record objects =
  traces :: "json list"
  observations :: "json list"
  scores :: "json list"
  sessions :: "json list"
  events :: "json list"
  configs :: "json list"
  comments :: "json list"
  queueItems :: "json list"

definition no_objects :: objects where
  "no_objects = \<lparr>traces = [], observations = [], scores = [], sessions = [], events = [],
                  configs = [], comments = [], queueItems = []\<rparr>"

text \<open>
  The score configurations handed to \<^verbatim>\<open>createObjects\<close>. The enumeration members are
  their own names as strings.
\<close>

datatype ScoreDataType = NUMERIC | CATEGORICAL | BOOLEAN

fun dataType_name :: "ScoreDataType \<Rightarrow> string" where
  "dataType_name NUMERIC = ''NUMERIC''"
| "dataType_name CATEGORICAL = ''CATEGORICAL''"
| "dataType_name BOOLEAN = ''BOOLEAN''"

record ConfigCategory =
  label :: string
  number :: rat

record score_config =
  config_name :: string
  config_id :: string
  dataType :: ScoreDataType
  categories :: "ConfigCategory list option"

subsection \<open>Events\<close>

definition user_email :: "nat \<Rightarrow> json" where
  "user_email i = JStr (''user-'' @ show_nat i @ ''@langfuse.com'')"

definition mk_event :: "nat \<Rightarrow> nat \<Rightarrow> nat \<Rightarrow> nat \<Rightarrow> string \<Rightarrow> json \<Rightarrow> json \<Rightarrow> json" where
  "mk_event i j k l uuid trace spn =
     JObj [(''type'', JStr ''EVENT''),
           (''id'', JStr (''event-'' @ uuid)),
           (''name'', JStr (''event-'' @ show_nat i @ ''-'' @ show_nat j @ ''-'' @ show_nat k
                              @ ''-'' @ show_nat l)),
           (''metadata'', JObj [(''user'', user_email i)]),
           (''parentObservationId'', fld spn ''id''),
           (''traceId'', fld trace ''id''),
           (''projectId'', fld trace ''projectId'')]"

lemma random_value_range: "0 \<le> random_value n \<and> random_value n < 1"
proof -
  have "0 \<le> n mod 2 ^ 53" "n mod 2 ^ 53 < 2 ^ 53" by simp_all
  then have "(0 :: rat) \<le> of_int (n mod 2 ^ 53)" "(of_int (n mod 2 ^ 53) :: rat) < of_int (2 ^ 53)"
    by (simp_all only: of_int_0_le_iff of_int_less_iff)
  then show ?thesis by (simp add: random_value_def)
qed

lemma random_range: "random env g = (r, g') \<Longrightarrow> 0 \<le> r \<and> r < 1"
  using random_value_range by (auto simp: random_def)

lemma floor_scaled: "0 \<le> r \<Longrightarrow> r < 1 \<Longrightarrow> \<lfloor>r * of_nat n\<rfloor> < int n \<or> n = 0"
proof (cases "n = 0")
  case True
  then show ?thesis by simp
next
  case False
  assume "0 \<le> r" "r < 1"
  then have "r * of_nat n < of_nat n" using False by simp
  then have "\<lfloor>r * of_nat n\<rfloor> < int n" by (simp add: floor_less_iff)
  then show ?thesis by simp
qed

lemma random_below: "(x, y) = random env g \<Longrightarrow> 0 < n \<Longrightarrow> \<lfloor>x * of_nat n\<rfloor> < int n"
  using random_range [of env g x y] floor_scaled [of x n] by auto

text \<open>
  \<^verbatim>\<open>for (let l = 0; l < Math.floor(Math.random() * 2); l++)\<close>: the bound is drawn again at
  every test.
\<close>

function event_loop ::
  "seed_env \<Rightarrow> nat \<Rightarrow> nat \<Rightarrow> nat \<Rightarrow> json \<Rightarrow> json \<Rightarrow> nat \<Rightarrow> objects \<Rightarrow> gen \<Rightarrow> objects \<times> gen" where
  "event_loop env i j k trace spn l os g =
     (case random env g of
        (bound, g1) \<Rightarrow>
          if int l < \<lfloor>bound * 2\<rfloor>
          then (case random env g1 of
                  (eventTs, g2) \<Rightarrow>
                    (case v4 env g2 of
                       (uuid, g3) \<Rightarrow>
                         event_loop env i j k trace spn (Suc l)
                           (os\<lparr>events := events os @ [mk_event i j k l uuid trace spn]\<rparr>) g3))
          else (os, g1))"
  by pat_completeness auto
termination
proof (relation "measure (\<lambda>(env, i, j, k, trace, spn, l, os, g). 2 - l)", goal_cases)
  case 1
  then show ?case by simp
next
  case (2 env i j k trace spn l os g x y xa ya xb yb)
  then have "\<lfloor>x * 2\<rfloor> < 2"
    using random_below [of x y env g 2] by simp
  with 2(2) have "l < 1" by linarith
  then show ?case by simp
qed

subsection \<open>Generations\<close>

definition skip_draw :: "seed_env \<Rightarrow> gen \<Rightarrow> gen" where
  "skip_draw env g = snd (random env g)"

text \<open>\<^verbatim>\<open>Math.random() > 0.9 ? undefined : f(Math.random())\<close> for a field that is left out.\<close>

definition optional_draw :: "seed_env \<Rightarrow> gen \<Rightarrow> gen" where
  "optional_draw env g =
     (case random env g of (r, g1) \<Rightarrow> if r > 9 / 10 then g1 else skip_draw env g1)"

text \<open>The draws of \<^verbatim>\<open>getGenerationInputOutput\<close>, whose texts are left out.\<close>

definition getGenerationInputOutput :: "seed_env \<Rightarrow> gen \<Rightarrow> gen" where
  "getGenerationInputOutput env g =
     (case random env g of (r, g1) \<Rightarrow> if r > 9 / 10 then g1 else skip_draw env g1)"

definition models :: "json list" where
  "models = [JStr ''gpt-3.5-turbo'', JStr ''gpt-4'', JStr ''gpt-4-32k-0613'',
             JStr ''gpt-3.5-turbo-16k-0613'', JStr ''claude-instant-1'', JStr ''claude-2.1'',
             JStr ''gpt-4-vision-preview'', JStr ''MIXTRAL-8X7B'']"

definition mk_generation ::
  "nat \<Rightarrow> nat \<Rightarrow> nat \<Rightarrow> string \<Rightarrow> json \<Rightarrow> json \<Rightarrow> json \<Rightarrow> json \<Rightarrow> int \<Rightarrow> int \<Rightarrow> json" where
  "mk_generation i j k uuid trace spn promptId model promptTokens completionTokens =
     JObj [(''type'', JStr ''GENERATION''),
           (''id'', JStr (''generation-'' @ uuid)),
           (''name'', JStr (''generation-'' @ show_nat i @ ''-'' @ show_nat j @ ''-''
                              @ show_nat k)),
           (''projectId'', fld trace ''projectId''),
           (''promptId'', promptId),
           (''model'', model),
           (''internalModel'', model),
           (''metadata'', JObj [(''user'', user_email i)]),
           (''promptTokens'', JNum (of_int promptTokens)),
           (''completionTokens'', JNum (of_int completionTokens)),
           (''totalTokens'', JNum (of_int (promptTokens + completionTokens))),
           (''parentObservationId'', fld spn ''id''),
           (''traceId'', fld trace ''id''),
           (''unit'', JStr ''TOKENS'')]"

definition mk_generation_score :: "string \<Rightarrow> rat \<Rightarrow> json \<Rightarrow> json \<Rightarrow> json" where
  "mk_generation_score name r generation trace =
     JObj [(''name'', JStr name),
           (''value'', JNum (r * 2 - 1)),
           (''observationId'', fld generation ''id''),
           (''traceId'', fld trace ''id''),
           (''source'', JStr ''API''),
           (''projectId'', fld trace ''projectId'')]"

definition mk_observation_comment :: "json \<Rightarrow> json \<Rightarrow> json" where
  "mk_observation_comment generation trace =
     JObj [(''projectId'', fld trace ''projectId''),
           (''objectId'', fld generation ''id''),
           (''objectType'', JStr ''OBSERVATION''),
           (''content'', JStr ''Observation comment content'')]"

text \<open>
  \<^verbatim>\<open>if (Math.random() > 0.6) scores.push({ ..., value: Math.random() * 2 - 1, ... })\<close>
\<close>

definition push_generation_score ::
  "seed_env \<Rightarrow> string \<Rightarrow> json \<Rightarrow> json \<Rightarrow> objects \<Rightarrow> gen \<Rightarrow> objects \<times> gen" where
  "push_generation_score env name generation trace os g =
     (case random env g of
        (r, g1) \<Rightarrow>
          if r > 6 / 10
          then (case random env g1 of
                  (v, g2) \<Rightarrow>
                    (os\<lparr>scores := scores os @ [mk_generation_score name v generation trace]\<rparr>, g2))
          else (os, g1))"

text \<open>
  One pass of the body of the loop over \<^verbatim>\<open>k\<close>. A project without an entry in
  \<^verbatim>\<open>promptIds\<close> makes \<^verbatim>\<open>promptIds.get(projectId)!\<close> undefined, and reading from it throws.
\<close>

definition generation_body ::
  "seed_env \<Rightarrow> (json \<rightharpoonup> string list) \<Rightarrow> json \<Rightarrow> nat \<Rightarrow> nat \<Rightarrow> nat \<Rightarrow> json \<Rightarrow> json
     \<Rightarrow> objects \<Rightarrow> gen \<Rightarrow> js_error + (objects \<times> gen)" where
  "generation_body env promptIds projectId i j k trace spn os g =
     (let g1 = skip_draw env (skip_draw env g);
          (rp, g2) = random env g1;
          (rc, g3) = random env g2;
          promptTokens = \<lfloor>rp * 1000\<rfloor> + 300;
          completionTokens = \<lfloor>rc * 500\<rfloor> + 100;
          (rm, g4) = random env g3;
          model = pick models rm;
          (ri, g5) = random env g4
      in case promptIds projectId of
           None \<Rightarrow> Inl TypeError
         | Some ps \<Rightarrow>
             (let promptId = at_index (map JStr ps) (floor_nat (ri * of_nat (length ps div 2)));
                  g6 = getGenerationInputOutput env g5;
                  (uuid, g7) = v4 env g6;
                  g8 = skip_draw env g7;
                  g9 = optional_draw env (optional_draw env (optional_draw env g8));
                  g10 = skip_draw env g9;
                  generation = mk_generation i j k uuid trace spn promptId model
                                 promptTokens completionTokens;
                  os1 = os\<lparr>observations := observations os @ [generation]\<rparr>;
                  (os2, g11) = push_generation_score env ''quality'' generation trace os1 g10;
                  (os3, g12) = push_generation_score env ''conciseness'' generation trace os2 g11;
                  (rk, g13) = random env g12;
                  os4 = (if rk > 8 / 10
                         then os3\<lparr>comments := comments os3
                                     @ [mk_observation_comment generation trace]\<rparr>
                         else os3)
              in Inr (event_loop env i j k trace spn 0 os4 g13)))"

text \<open>\<^verbatim>\<open>for (let k = 0; k < Math.floor(Math.random() * 2) + 1; k++)\<close>\<close>

function generation_loop ::
  "seed_env \<Rightarrow> (json \<rightharpoonup> string list) \<Rightarrow> json \<Rightarrow> nat \<Rightarrow> nat \<Rightarrow> json \<Rightarrow> json \<Rightarrow> nat
     \<Rightarrow> objects \<Rightarrow> gen \<Rightarrow> js_error + (objects \<times> gen)" where
  "generation_loop env promptIds projectId i j trace spn k os g =
     (case random env g of
        (bound, g1) \<Rightarrow>
          if int k < \<lfloor>bound * 2\<rfloor> + 1
          then (case generation_body env promptIds projectId i j k trace spn os g1 of
                  Inl e \<Rightarrow> Inl e
                | Inr (os', g') \<Rightarrow>
                    generation_loop env promptIds projectId i j trace spn (Suc k) os' g')
          else Inr (os, g1))"
  by pat_completeness auto
termination
proof (relation "measure (\<lambda>(env, promptIds, projectId, i, j, trace, spn, k, os, g). 2 - k)",
    goal_cases)
  case 1
  then show ?case by simp
next
  case (2 env promptIds projectId i j trace spn k os g x y)
  then have "\<lfloor>x * 2\<rfloor> < 2"
    using random_below [of x y env g 2] by simp
  with 2(2) have "k < 2" by linarith
  then show ?case by simp
qed

subsection \<open>Spans\<close>

definition mk_span :: "nat \<Rightarrow> nat \<Rightarrow> string \<Rightarrow> json \<Rightarrow> json option \<Rightarrow> json" where
  "mk_span i j uuid trace parent =
     JObj ([(''type'', JStr ''SPAN''),
            (''id'', JStr (''span-'' @ uuid)),
            (''name'', JStr (''span-'' @ show_nat i @ ''-'' @ show_nat j)),
            (''metadata'', JObj [(''user'', user_email i)]),
            (''projectId'', fld trace ''projectId''),
            (''traceId'', fld trace ''id'')]
           @ (case parent of None \<Rightarrow> [] | Some p \<Rightarrow> [(''parentObservationId'', p)]))"

text \<open>
  The parent of a new span: none for the first span and in half of the cases, else one
  of the spans of the trace so far.
\<close>

definition choose_parent :: "seed_env \<Rightarrow> json list \<Rightarrow> gen \<Rightarrow> json option \<times> gen" where
  "choose_parent env existingSpanIds g =
     (if existingSpanIds = [] then (None, g)
      else case random env g of
             (r, g1) \<Rightarrow>
               if r > 5 / 10 then (None, g1)
               else (case random env g1 of
                       (r2, g2) \<Rightarrow> (Some (pick existingSpanIds r2), g2)))"

text \<open>\<^verbatim>\<open>for (let j = 0; j < Math.floor(Math.random() * 10) + 1; j++)\<close>\<close>

function span_loop ::
  "seed_env \<Rightarrow> (json \<rightharpoonup> string list) \<Rightarrow> json \<Rightarrow> nat \<Rightarrow> json \<Rightarrow> nat \<Rightarrow> json list
     \<Rightarrow> objects \<Rightarrow> gen \<Rightarrow> js_error + (objects \<times> gen)" where
  "span_loop env promptIds projectId i trace j existingSpanIds os g =
     (case random env g of
        (bound, g1) \<Rightarrow>
          if int j < \<lfloor>bound * 10\<rfloor> + 1
          then (let g2 = skip_draw env (skip_draw env g1);
                    (uuid, g3) = v4 env g2;
                    (parent, g4) = choose_parent env existingSpanIds g3;
                    spn = mk_span i j uuid trace parent;
                    os1 = os\<lparr>observations := observations os @ [spn]\<rparr>
                in case generation_loop env promptIds projectId i j trace spn 0 os1 g4 of
                     Inl e \<Rightarrow> Inl e
                   | Inr (os', g') \<Rightarrow>
                       span_loop env promptIds projectId i trace (Suc j)
                         (existingSpanIds @ [fld spn ''id'']) os' g')
          else Inr (os, g1))"
  by pat_completeness auto
termination
proof (relation "measure (\<lambda>(env, promptIds, projectId, i, trace, j, ids, os, g). 10 - j)",
    goal_cases)
  case 1
  then show ?case by simp
next
  case (2 env promptIds projectId i trace j existingSpanIds os g x y)
  then have "\<lfloor>x * 10\<rfloor> < 10"
    using random_below [of x y env g 10] by simp
  with 2(2) have "j < 10" by linarith
  then show ?case by simp
qed

subsection \<open>Traces and their scores\<close>

definition mk_session :: "nat \<Rightarrow> json \<Rightarrow> json" where
  "mk_session i projectId =
     JObj [(''id'', JStr (''session-'' @ show_nat (i mod 3))), (''projectId'', projectId)]"

definition trace_names :: "json list" where
  "trace_names = [JStr ''generate-outreach'', JStr ''label-inbound'', JStr ''draft-response'']"

definition mk_trace ::
  "nat \<Rightarrow> string \<Rightarrow> json \<Rightarrow> json list \<Rightarrow> rat \<Rightarrow> rat \<Rightarrow> rat \<Rightarrow> json option \<Rightarrow> json" where
  "mk_trace i uuid projectId tags ru rin rout session =
     JObj ([(''id'', JStr (''trace-'' @ uuid)),
            (''projectId'', projectId),
            (''name'', at_index trace_names (i mod 3)),
            (''metadata'', JObj [(''user'', user_email i), (''more'', JStr ''1,2,3;4?6'')]),
            (''tags'', JArr tags),
            (''userId'', if ru > 3 / 10 then JStr (''user-'' @ show_nat (i mod 60)) else JUndefined),
            (''input'', if rin > 3 / 10 then JStr ''I'm looking for a React component''
                        else JUndefined),
            (''output'', if rout > 3 / 10 then JStr ''What kind of component are you looking for?''
                         else JUndefined)]
           @ (case session of None \<Rightarrow> [] | Some s \<Rightarrow> [(''sessionId'', fld s ''id'')]))"

text \<open>
  \<^verbatim>\<open>configArray.length >= randomIndex - 1 && configArray[randomIndex]\<close>, then
  \<^verbatim>\<open>config || { name: "manual-score", id: undefined, dataType: NUMERIC, categories: null }\<close>:
  the configuration at the index when there is one, else the default, which has no id.
\<close>

definition choose_config :: "score_config list \<Rightarrow> nat \<Rightarrow> score_config option" where
  "choose_config configArray randomIndex =
     (if int (length configArray) \<ge> int randomIndex - 1 \<and> randomIndex < length configArray
      then Some (configArray ! randomIndex)
      else None)"

text \<open>\<^verbatim>\<open>categories?.find((category) => category.value === value)?.label\<close>\<close>

definition category_label :: "ConfigCategory list option \<Rightarrow> rat \<Rightarrow> json" where
  "category_label cats v =
     (case cats of
        None \<Rightarrow> JUndefined
      | Some cs \<Rightarrow> (case find (\<lambda>c. number c = v) cs of
                     None \<Rightarrow> JUndefined
                   | Some c \<Rightarrow> JStr (label c)))"

definition scoreNumericAndStringValue ::
  "ScoreDataType \<Rightarrow> ConfigCategory list option \<Rightarrow> rat \<Rightarrow> (string \<times> json) list" where
  "scoreNumericAndStringValue dt cats v =
     (case dt of
        NUMERIC \<Rightarrow> [(''value'', JNum v)]
      | CATEGORICAL \<Rightarrow> [(''value'', JNum v), (''stringValue'', category_label cats v)]
      | BOOLEAN \<Rightarrow> [(''value'', JNum v),
                    (''stringValue'', if v = 1 then JStr ''True'' else JStr ''False'')])"

definition mk_annotation_score :: "nat \<Rightarrow> json \<Rightarrow> score_config option \<Rightarrow> rat \<Rightarrow> json" where
  "mk_annotation_score i trace config v =
     (let annotationScoreName = (case config of Some c \<Rightarrow> config_name c | None \<Rightarrow> ''manual-score'');
          dt = (case config of Some c \<Rightarrow> dataType c | None \<Rightarrow> NUMERIC);
          cats = (case config of Some c \<Rightarrow> categories c | None \<Rightarrow> None)
      in JObj ([(''traceId'', fld trace ''id''),
                (''name'', JStr annotationScoreName),
                (''source'', JStr ''ANNOTATION''),
                (''projectId'', fld trace ''projectId''),
                (''authorUserId'', JStr (''user-'' @ show_nat i)),
                (''dataType'', JStr (dataType_name dt))]
               @ scoreNumericAndStringValue dt cats v
               @ (case config of
                    Some c \<Rightarrow> if config_id c \<noteq> [] then [(''configId'', JStr (config_id c))] else []
                  | None \<Rightarrow> [])))"

definition mk_sentiment_score :: "json \<Rightarrow> int \<Rightarrow> json" where
  "mk_sentiment_score trace v =
     JObj [(''traceId'', fld trace ''id''),
           (''name'', JStr ''sentiment''),
           (''value'', JNum (of_int v)),
           (''source'', JStr ''API''),
           (''projectId'', fld trace ''projectId''),
           (''dataType'', JStr ''NUMERIC''),
           (''metadata'', JObj [])]"

definition mk_completeness_score :: "json \<Rightarrow> bool \<Rightarrow> json" where
  "mk_completeness_score trace fully =
     JObj [(''traceId'', fld trace ''id''),
           (''name'', JStr ''Completeness''),
           (''source'', JStr ''API''),
           (''projectId'', fld trace ''projectId''),
           (''dataType'', JStr ''CATEGORICAL''),
           (''stringValue'', if fully then JStr ''Fully'' else JStr ''Partially''),
           (''metadata'', JObj [])]"

text \<open>The array \<^verbatim>\<open>traceScores\<close>: each of the three scores is there or not by a draw.\<close>

definition traceScores ::
  "seed_env \<Rightarrow> nat \<Rightarrow> json \<Rightarrow> score_config option \<Rightarrow> rat \<Rightarrow> gen \<Rightarrow> json list \<times> gen" where
  "traceScores env i trace config v g =
     (let (ra, g1) = random env g;
          annotation = (if ra > 5 / 10 then [mk_annotation_score i trace config v] else []);
          (rs, g2) = random env g1;
          (sentiment, g3) =
             (if rs > 7 / 10
              then (case random env g2 of
                      (rv, g') \<Rightarrow> ([mk_sentiment_score trace (\<lfloor>rv * 10\<rfloor> - 5)], g'))
              else ([], g2));
          (rc, g4) = random env g3;
          (completeness, g5) =
             (if rc < 8 / 10
              then (case random env g4 of
                      (rv, g') \<Rightarrow> ([mk_completeness_score trace (\<lfloor>rv * 2\<rfloor> = 1)], g'))
              else ([], g4))
      in (annotation @ sentiment @ completeness, g5))"

text \<open>
  The queue item of a trace: in a tenth of the cases, when the project has a first queue
  id that is not empty.
\<close>

definition queueItem :: "(json \<rightharpoonup> string list) \<Rightarrow> json \<Rightarrow> json \<Rightarrow> rat \<Rightarrow> json list" where
  "queueItem queueIds projectId trace r =
     (case queueIds projectId of
        Some (q # qs) \<Rightarrow>
          if r > 9 / 10 \<and> q \<noteq> []
          then [JObj [(''queueId'', JStr q),
                      (''objectId'', fld trace ''id''),
                      (''objectType'', JStr ''TRACE''),
                      (''projectId'', projectId)]]
          else []
      | _ \<Rightarrow> [])"

definition mk_trace_comment :: "nat \<Rightarrow> json \<Rightarrow> bool \<Rightarrow> json" where
  "mk_trace_comment i trace authored =
     JObj ([(''projectId'', fld trace ''projectId''),
            (''objectId'', fld trace ''id''),
            (''objectType'', JStr ''TRACE''),
            (''content'', JStr ''Trace comment content'')]
           @ (if authored then [(''authorUserId'', JStr (''user-'' @ show_nat i))] else []))"

definition trace_comment :: "seed_env \<Rightarrow> nat \<Rightarrow> json \<Rightarrow> gen \<Rightarrow> json list \<times> gen" where
  "trace_comment env i trace g =
     (case random env g of
        (r, g1) \<Rightarrow>
          if r > 9 / 10
          then (case random env g1 of (ra, g2) \<Rightarrow> ([mk_trace_comment i trace (ra > 5 / 10)], g2))
          else ([], g1))"

text \<open>
  The arguments of \<^verbatim>\<open>createObjects\<close> other than the trace volume. The maps are keyed by
  project id; a project is the row the ORM returned for it.
\<close>

record seed_args =
  envTags :: "json list"
  colorTags :: "json list"
  project1 :: row
  project2 :: row
  promptIds :: "json \<rightharpoonup> string list"
  queueIds :: "json \<rightharpoonup> string list"
  configParams :: "json \<rightharpoonup> score_config list"

text \<open>One pass of the body of the loop over \<^verbatim>\<open>i\<close>.\<close>

definition trace_body ::
  "seed_env \<Rightarrow> seed_args \<Rightarrow> nat \<Rightarrow> objects \<Rightarrow> gen \<Rightarrow> js_error + (objects \<times> gen)" where
  "trace_body env a i os g =
     (let g1 = skip_draw env g;
          (re, g2) = random env g1;
          (rc, g3) = random env g2;
          tags = filter (\<lambda>tag. tag \<noteq> JNull) [pick (envTags a) re, pick (colorTags a) rc];
          projectId = (if i mod 2 = 0 then col (project1 a) ''id'' else col (project2 a) ''id'');
          (rs, g4) = random env g3;
          session = (if rs > 3 / 10 then Some (mk_session i projectId) else None);
          os1 = (case session of
                   Some s \<Rightarrow> os\<lparr>sessions := sessions os @ [s]\<rparr>
                 | None \<Rightarrow> os);
          (uuid, g5) = v4 env g4;
          (ru, g6) = random env g5;
          (rin, g7) = random env g6;
          (rout, g8) = random env g7;
          trace = mk_trace i uuid projectId tags ru rin rout session;
          os2 = os1\<lparr>traces := traces os1 @ [trace]\<rparr>;
          configArray = (case configParams a projectId of Some cs \<Rightarrow> cs | None \<Rightarrow> []);
          (ri, g9) = random env g8;
          config = choose_config configArray (floor_nat (ri * 3));
          (rv, g10) = random env g9;
          v = of_int \<lfloor>rv * 2\<rfloor>;
          (rq, g11) = random env g10;
          os3 = os2\<lparr>queueItems := queueItems os2 @ queueItem (queueIds a) projectId trace rq\<rparr>;
          (ts, g12) = traceScores env i trace config v g11;
          (cs, g13) = trace_comment env i trace g12;
          os4 = os3\<lparr>comments := comments os3 @ cs, scores := scores os3 @ ts\<rparr>
      in span_loop env (promptIds a) projectId i trace 0 [] os4 g13)"

text \<open>\<^verbatim>\<open>for (let i = 0; i < traceVolume; i++)\<close>\<close>

function trace_loop ::
  "seed_env \<Rightarrow> seed_args \<Rightarrow> nat \<Rightarrow> nat \<Rightarrow> objects \<Rightarrow> gen \<Rightarrow> js_error + (objects \<times> gen)" where
  "trace_loop env a traceVolume i os g =
     (if i < traceVolume
      then (case trace_body env a i os g of
              Inl e \<Rightarrow> Inl e
            | Inr (os', g') \<Rightarrow> trace_loop env a traceVolume (Suc i) os' g')
      else Inr (os, g))"
  by pat_completeness auto
termination
  by (relation "measure (\<lambda>(env, a, traceVolume, i, os, g). traceVolume - i)") auto

text \<open>
  \<^verbatim>\<open>Array.from(new Set(sessions.map((s) => JSON.stringify(s)))).map((s) => JSON.parse(s))\<close>:
  the sessions are objects of two string properties in one order, on which the text is
  one-to-one and the parse gives the object back, so that the set keeps the first of
  equal objects, in order.
\<close>

definition uniqueSessions :: "json list \<Rightarrow> json list" where
  "uniqueSessions ss = foldl (\<lambda>seen s. if s \<in> set seen then seen else seen @ [s]) [] ss"

definition createObjects ::
  "seed_env \<Rightarrow> nat \<Rightarrow> seed_args \<Rightarrow> gen \<Rightarrow> js_error + (objects \<times> gen)" where
  "createObjects env traceVolume a g =
     (case trace_loop env a traceVolume 0 no_objects g of
        Inl e \<Rightarrow> Inl e
      | Inr (os, g') \<Rightarrow> Inr (os\<lparr>sessions := uniqueSessions (sessions os)\<rparr>, g'))"

subsection \<open>Vocabulary for the properties of the generated objects\<close>

text \<open>The objects a part of the run adds to the arrays, as arrays of their own.\<close>

definition append_objects :: "objects \<Rightarrow> objects \<Rightarrow> objects" where
  "append_objects os d =
     \<lparr>traces = traces os @ traces d, observations = observations os @ observations d,
      scores = scores os @ scores d, sessions = sessions os @ sessions d,
      events = events os @ events d, configs = configs os @ configs d,
      comments = comments os @ comments d, queueItems = queueItems os @ queueItems d\<rparr>"

definition only_events :: "objects \<Rightarrow> bool" where
  "only_events d \<longleftrightarrow> traces d = [] \<and> observations d = [] \<and> scores d = [] \<and> sessions d = []
     \<and> configs d = [] \<and> comments d = [] \<and> queueItems d = []"

text \<open>An observation carries the id and the project of a trace.\<close>

definition in_trace :: "json \<Rightarrow> json \<Rightarrow> bool" where
  "in_trace trace ob \<longleftrightarrow>
     fld ob ''traceId'' = fld trace ''id'' \<and> fld ob ''projectId'' = fld trace ''projectId''"

definition child_of :: "json \<Rightarrow> json \<Rightarrow> json \<Rightarrow> bool" where
  "child_of trace spn ob \<longleftrightarrow>
     in_trace trace ob \<and> fld ob ''parentObservationId'' = fld spn ''id''"

text \<open>
  An observation has no parent, or its parent is one of the given ids, or it is the id
  of one of the given observations of the trace.
\<close>

definition parent_known :: "json \<Rightarrow> json list \<Rightarrow> json list \<Rightarrow> json \<Rightarrow> bool" where
  "parent_known trace ids obs ob \<longleftrightarrow>
     fld ob ''parentObservationId'' = JUndefined
     \<or> fld ob ''parentObservationId'' \<in> set ids
     \<or> list_ex (\<lambda>p. fld p ''id'' = fld ob ''parentObservationId''
                    \<and> fld p ''traceId'' = fld trace ''id'') obs"

text \<open>A score of a generation: it has no data type, a number and no string.\<close>

fun is_number :: "json \<Rightarrow> bool" where
  "is_number (JNum x) = True"
| "is_number v = False"

definition untyped_score :: "json \<Rightarrow> bool" where
  "untyped_score s \<longleftrightarrow>
     fld s ''dataType'' = JUndefined \<and> is_number (fld s ''value'')
     \<and> fld s ''stringValue'' = JUndefined"

definition no_trace_level :: "objects \<Rightarrow> bool" where
  "no_trace_level d \<longleftrightarrow> traces d = [] \<and> sessions d = [] \<and> queueItems d = [] \<and> configs d = []"

definition generation_delta :: "json \<Rightarrow> json \<Rightarrow> objects \<Rightarrow> bool" where
  "generation_delta trace spn d \<longleftrightarrow>
     no_trace_level d
     \<and> list_all (child_of trace spn) (observations d @ events d)
     \<and> list_all untyped_score (scores d)"

definition span_delta :: "json \<Rightarrow> json list \<Rightarrow> objects \<Rightarrow> bool" where
  "span_delta trace ids d \<longleftrightarrow>
     no_trace_level d
     \<and> list_all (\<lambda>ob. in_trace trace ob \<and> parent_known trace ids (observations d) ob)
          (observations d @ events d)
     \<and> list_all untyped_score (scores d)"

text \<open>The project of the trace with number \<open>i\<close>.\<close>

definition project_of :: "seed_args \<Rightarrow> nat \<Rightarrow> json" where
  "project_of a i = (if even i then col (project1 a) ''id'' else col (project2 a) ''id'')"

text \<open>
  A queue item of a trace: it names the trace, its project, and the first queue id that
  \<^verbatim>\<open>queueIds\<close> holds for that project.
\<close>

definition queue_item_of :: "seed_args \<Rightarrow> json \<Rightarrow> json \<Rightarrow> bool" where
  "queue_item_of a trace q \<longleftrightarrow>
     fld q ''objectId'' = fld trace ''id'' \<and> fld q ''projectId'' = fld trace ''projectId''
     \<and> fld q ''objectType'' = JStr ''TRACE''
     \<and> (case queueIds a (fld trace ''projectId'') of
           Some (x # xs) \<Rightarrow> fld q ''queueId'' = JStr x
         | _ \<Rightarrow> False)"

definition project_configs :: "seed_args \<Rightarrow> json \<Rightarrow> score_config list" where
  "project_configs a projectId = (case configParams a projectId of Some cs \<Rightarrow> cs | None \<Rightarrow> [])"

text \<open>
  The string of a score is the label that the categories of a categorical score
  configuration of the score's project, with the score's name, give to the score's
  number (undefined when they give none).
\<close>

definition resolved_by_config :: "seed_args \<Rightarrow> json \<Rightarrow> bool" where
  "resolved_by_config a s \<longleftrightarrow>
     (case fld s ''value'' of
        JNum v \<Rightarrow>
          list_ex (\<lambda>c. dataType c = CATEGORICAL \<and> fld s ''name'' = JStr (config_name c)
                        \<and> fld s ''stringValue'' = category_label (categories c) v)
            (project_configs a (fld s ''projectId''))
      | _ \<Rightarrow> False)"

text \<open>What the data type of a generated score says about its number and its string.\<close>

definition score_populated :: "seed_args \<Rightarrow> json \<Rightarrow> bool" where
  "score_populated a s \<longleftrightarrow>
     (if fld s ''dataType'' = JStr ''NUMERIC''
      then is_number (fld s ''value'') \<and> fld s ''stringValue'' = JUndefined
      else if fld s ''dataType'' = JStr ''CATEGORICAL''
      then (fld s ''name'' = JStr ''Completeness'' \<and> fld s ''value'' = JUndefined
            \<and> fld s ''stringValue'' \<in> {JStr ''Fully'', JStr ''Partially''})
           \<or> resolved_by_config a s
      else if fld s ''dataType'' = JStr ''BOOLEAN''
      then is_number (fld s ''value'')
           \<and> fld s ''stringValue''
               = (if fld s ''value'' = JNum 1 then JStr ''True'' else JStr ''False'')
      else untyped_score s)"

text \<open>
  The claim on scores as the specification has it: a numeric score has a number and no
  string, and a categorical or boolean score has a string, which is the label that the
  categories of a score configuration of its project give to its number.
\<close>

definition score_as_specified :: "seed_args \<Rightarrow> json \<Rightarrow> bool" where
  "score_as_specified a s \<longleftrightarrow>
     (if fld s ''dataType'' = JStr ''NUMERIC''
      then is_number (fld s ''value'') \<and> fld s ''stringValue'' = JUndefined
      else if fld s ''dataType'' = JStr ''CATEGORICAL'' \<or> fld s ''dataType'' = JStr ''BOOLEAN''
      then fld s ''stringValue'' \<noteq> JUndefined
           \<and> (case fld s ''value'' of
                 JNum v \<Rightarrow>
                   list_ex (\<lambda>c. fld s ''stringValue'' = category_label (categories c) v)
                     (project_configs a (fld s ''projectId''))
               | _ \<Rightarrow> False)
      else True)"

text \<open>
  An observation belongs to a trace of the arrays: it carries the id and the project of
  the trace, and its parent, when it has one, is an observation of the arrays with the
  id of that trace.
\<close>

definition belongs :: "objects \<Rightarrow> json \<Rightarrow> bool" where
  "belongs d ob \<longleftrightarrow>
     list_ex (\<lambda>t. in_trace t ob \<and> parent_known t [] (observations d) ob) (traces d)"

definition session_names :: "json list" where
  "session_names = [JStr ''session-0'', JStr ''session-1'', JStr ''session-2'']"

definition is_session :: "seed_args \<Rightarrow> json \<Rightarrow> bool" where
  "is_session a s \<longleftrightarrow>
     list_ex (\<lambda>n. list_ex (\<lambda>p. s = JObj [(''id'', n), (''projectId'', p)])
                     [col (project1 a) ''id'', col (project2 a) ''id''])
       session_names"

definition trace_delta :: "seed_args \<Rightarrow> nat \<Rightarrow> objects \<Rightarrow> bool" where
  "trace_delta a i d \<longleftrightarrow>
     length (traces d) = 1
     \<and> fld (hd (traces d)) ''projectId'' = project_of a i
     \<and> list_all (is_session a) (sessions d)
     \<and> configs d = []
     \<and> list_all (queue_item_of a (hd (traces d))) (queueItems d)
     \<and> list_all (\<lambda>ob. in_trace (hd (traces d)) ob
                      \<and> parent_known (hd (traces d)) [] (observations d) ob)
          (observations d @ events d)
     \<and> list_all (score_populated a) (scores d)"

definition all_delta :: "seed_args \<Rightarrow> nat \<Rightarrow> nat \<Rightarrow> objects \<Rightarrow> bool" where
  "all_delta a i n d \<longleftrightarrow>
     length (traces d) = n - i
     \<and> list_all (\<lambda>k. fld (traces d ! k) ''projectId'' = project_of a (i + k)) [0..<n - i]
     \<and> list_all (is_session a) (sessions d)
     \<and> configs d = []
     \<and> list_all (\<lambda>q. list_ex (\<lambda>t. queue_item_of a t q) (traces d)) (queueItems d)
     \<and> list_all (belongs d) (observations d @ events d)
     \<and> list_all (score_populated a) (scores d)"

section \<open>Concrete inputs\<close>

definition demo_scim_env :: scim_env where
  "demo_scim_env =
     \<lparr>verifyAuthHeaderAndReturnScope =
        (\<lambda>h. if h = Some ''Bearer org-key''
             then ValidKey \<lparr>accessLevel = ''organization'', orgId = Some ''org-1''\<rparr>
             else if h = Some ''Bearer project-key''
             then ValidKey \<lparr>accessLevel = ''project'', orgId = Some ''org-1''\<rparr>
             else InvalidKey ''Invalid credentials''),
      JSON_parse = (\<lambda>s. if s = ''{}'' then Some (JObj []) else None),
      JSON_stringify = (\<lambda>v. ''[...]''),
      hashPassword = (\<lambda>p. case p of JStr s \<Rightarrow> Some (''hash of '' @ s) | _ \<Rightarrow> None),
      toLowerCase = map ascii_lower,
      email_filter = (\<lambda>v. if v = JObj [] then Some (\<lambda>e. True) else None)\<rparr>"

text \<open>The order of the bytes, on ids that are strings.\<close>

fun bytes_le :: "nat list \<Rightarrow> nat list \<Rightarrow> bool" where
  "bytes_le [] ys = True"
| "bytes_le (x # xs) [] = False"
| "bytes_le (x # xs) (y # ys) = (x < y \<or> (x = y \<and> bytes_le xs ys))"

definition binary_le :: "json \<Rightarrow> json \<Rightarrow> bool" where
  "binary_le a b =
     (case (a, b) of
        (JStr s, JStr t) \<Rightarrow> bytes_le (map of_char s) (map of_char t)
      | _ \<Rightarrow> True)"

text \<open>
  A store with three users and three memberships, the second membership inserted before
  the first; the ORM takes 64-bit integers.
\<close>

definition demo_world :: world where
  "demo_world =
     \<lparr>tables = (\<lambda>m. [])
        (User := [[(''id'', JStr ''u1''), (''email'', JStr ''alice@example.com''),
                   (''name'', JStr ''Alice'')],
                  [(''id'', JStr ''u2''), (''email'', JStr ''bob@example.com'')],
                  [(''id'', JStr ''u3''), (''email'', JStr ''carol@example.com'')]],
         OrganizationMembership :=
                 [[(''id'', JStr ''m2''), (''userId'', JStr ''u2''), (''orgId'', JStr ''org-1''),
                   (''role'', JStr ''MEMBER'')],
                  [(''id'', JStr ''m1''), (''userId'', JStr ''u1''), (''orgId'', JStr ''org-1''),
                   (''role'', JStr ''OWNER'')],
                  [(''id'', JStr ''m3''), (''userId'', JStr ''u3''), (''orgId'', JStr ''org-2''),
                   (''role'', JStr ''MEMBER'')]]),
      cuid = (\<lambda>k. ''c'' @ replicate k CHR ''x''),
      issued = 0,
      column_defaults = (\<lambda>m. [(''createdAt'', JStr ''2025-01-01T00:00:00.000Z''),
                              (''updatedAt'', JStr ''2025-01-01T00:00:00.000Z'')]),
      int_bound = 2 ^ 63 - 1,
      id_le = binary_le\<rparr>"

definition demo_request :: "string \<Rightarrow> string option \<Rightarrow> json \<Rightarrow> request" where
  "demo_request m key b =
     \<lparr>req_method = m, authorization = key,
      req_query = \<lparr>filter_param = QAbsent, startIndex = QAbsent, count_param = QAbsent\<rparr>,
      req_body = b\<rparr>"

definition demo_get :: "qval \<Rightarrow> qval \<Rightarrow> qval \<Rightarrow> request" where
  "demo_get f si c =
     \<lparr>req_method = ''GET'', authorization = Some ''Bearer org-key'',
      req_query = \<lparr>filter_param = f, startIndex = si, count_param = c\<rparr>,
      req_body = JUndefined\<rparr>"

definition demo_post :: "json \<Rightarrow> request" where
  "demo_post b = demo_request ''POST'' (Some ''Bearer org-key'') b"

text \<open>
  A seed environment over a given sequence of draws; the \<open>k\<close>-th identifier is the
  numeral of \<open>k\<close>.
\<close>

definition demo_seed_env :: "string option \<Rightarrow> (nat \<Rightarrow> int) \<Rightarrow> seed_env" where
  "demo_seed_env e rnd =
     \<lparr>environment = e, Math_random = rnd, uuid_v4 = show_nat,
      bcrypt_hash = (\<lambda>k. ''$2a$12$'' @ show_nat k),
      SEED_SECRET_KEY = None, OPENAI_API_KEY = None,
      hashSecretKey = (\<lambda>s. ''hashed '' @ s),
      getDisplaySecretKey = (\<lambda>s. ''sk-lf-...'' @ drop (length s - 4) s),
      encrypt = (\<lambda>s. ''encrypted '' @ s)\<rparr>"

text \<open>Every draw is 0, and every draw is the largest number below 1.\<close>

definition low :: "nat \<Rightarrow> int" where
  "low k = 0"

definition high :: "nat \<Rightarrow> int" where
  "high k = 2 ^ 53 - 1"

definition demo_configs :: "score_config list" where
  "demo_configs =
     [\<lparr>config_name = ''manual-score'', config_id = ''config-a'', dataType = NUMERIC,
       categories = None\<rparr>,
      \<lparr>config_name = ''Accuracy'', config_id = ''config-b'', dataType = CATEGORICAL,
       categories = Some [\<lparr>label = ''Incorrect'', number = 0\<rparr>,
                          \<lparr>label = ''Partially Correct'', number = 1\<rparr>,
                          \<lparr>label = ''Correct'', number = 2\<rparr>]\<rparr>,
      \<lparr>config_name = ''Toxicity'', config_id = ''config-c'', dataType = BOOLEAN,
       categories = Some [\<lparr>label = ''True'', number = 1\<rparr>, \<lparr>label = ''False'', number = 0\<rparr>]\<rparr>]"

definition demo_args :: seed_args where
  "demo_args =
     \<lparr>envTags = [JNull, JStr ''development'', JStr ''staging'', JStr ''production''],
      colorTags = [JNull, JStr ''red'', JStr ''blue'', JStr ''yellow''],
      project1 = [(''id'', JStr ''p1''), (''name'', JStr ''llm-app'')],
      project2 = [(''id'', JStr ''p2''), (''name'', JStr ''demo-app'')],
      promptIds = [JStr ''p1'' \<mapsto> [''prompt-1'', ''prompt-2''], JStr ''p2'' \<mapsto> [''prompt-3'', ''prompt-4'']],
      queueIds = [JStr ''p1'' \<mapsto> [''queue-1''], JStr ''p2'' \<mapsto> [''queue-2'']],
      configParams = [JStr ''p1'' \<mapsto> demo_configs, JStr ''p2'' \<mapsto> demo_configs]\<rparr>"

definition start :: gen where
  "start = \<lparr>drawn = 0, made = 0\<rparr>"

section \<open>Properties of the SCIM route\<close>

lemma bit_length_le: "n < 2 ^ k \<Longrightarrow> bit_length n \<le> k"
proof (induction k arbitrary: n)
  case 0
  then show ?case by (subst bit_length.simps) simp
next
  case (Suc k)
  then have "n div 2 < 2 ^ k" by auto
  from Suc.IH [OF this] show ?case by (subst bit_length.simps) simp
qed

lemma below_overflow: "a < 2 ^ 53 \<Longrightarrow> \<not> double_overflow \<le> a"
proof -
  assume "a < 2 ^ 53"
  moreover have "(2::nat) ^ 53 \<le> 2 ^ 1024" by (rule power_increasing) simp_all
  ultimately show ?thesis unfolding double_overflow_def by linarith
qed

text \<open>An integer below \<open>2 ^ 53\<close> in absolute value is a double.\<close>

lemma to_double_exact: "\<bar>n\<bar> < 2 ^ 53 \<Longrightarrow> to_double n = Finite n"
proof -
  assume a: "\<bar>n\<bar> < 2 ^ 53"
  define a where "a = nat \<bar>n\<bar>"
  have ia: "int a = \<bar>n\<bar>" by (simp add: a_def)
  from a have s: "a < 2 ^ 53" by (simp add: a_def nat_less_iff)
  then have b: "bit_length a - 53 = 0" using bit_length_le by simp
  have o: "\<not> double_overflow \<le> a" using s by (rule below_overflow)
  show ?thesis
    unfolding to_double_def Let_def a_def [symmetric] b
    using o by (simp add: ia)
qed

lemmas parse_simps =
  query_int_def or_default_def parseInt_def after_space_def white_space_def
  is_digit_def digit_val_def digit_char_def to_double_exact

lemma scim_error_is: "is_scim_error (scim_error c d)"
  by (simp add: is_scim_error_def scim_error_def)

lemma handler_org_key:
  "org_key env req org \<Longrightarrow> handler env w req =
     (if req_method req = ''GET'' then (scim_get env w org (req_query req), w)
      else if req_method req = ''POST'' then scim_post env w org (req_body req)
      else (scim_error 405 ''Method not allowed'', w))"
  by (auto simp: org_key_def handler_def)

lemma parse_roles_None: "parse_roles r = None \<longleftrightarrow> invalid_roles r"
  by (induction r rule: parse_roles.induct) (auto simp: invalid_roles_def)

lemma create_member_status:
  "status (fst (create_member env w org u nm pw role)) = 201
   \<or> is_scim_error (fst (create_member env w org u nm pw role))"
  by (auto simp: create_member_def internal_error_def scim_error_is split: sum.splits prod.splits)

lemma internal_error_is: "is_scim_error internal_error"
  by (simp add: internal_error_def scim_error_is)

lemma find_or_create_status:
  "status (fst (find_or_create env w org b role)) = 201
   \<or> is_scim_error (fst (find_or_create env w org b role))"
proof (cases "fld b ''userName''")
  case (JStr u)
  then show ?thesis
    by (simp add: find_or_create_def scim_error_is internal_error_is create_member_status
        split: option.split)
qed (simp_all add: find_or_create_def scim_error_is internal_error_is split: option.split)

lemma scim_post_status:
  "status (fst (scim_post env w org b)) = 201 \<or> is_scim_error (fst (scim_post env w org b))"
  unfolding scim_post_def
  by (simp add: scim_error_is internal_error_is find_or_create_status split: option.split)

lemma scim_get_status:
  "status (scim_get env w org q) = 200 \<or> is_scim_error (scim_get env w org q)"
  by (auto simp: scim_get_def Let_def internal_error_def scim_error_is split: sum.splits)

lemma handler_status:
  "status (fst (handler env w req)) \<in> {200, 201} \<or> is_scim_error (fst (handler env w req))"
  using scim_get_status[of env w _ "req_query req"] scim_post_status[of env w _ "req_body req"]
  by (auto simp: handler_def scim_error_is split: authCheck.splits option.splits)


text \<open>
  C5, as stated, fails: a POST whose body is \<^verbatim>\<open>null\<close> has no \<^verbatim>\<open>userName\<close>, and it is
  answered with 500, not with 400. The body is destructured inside the \<^verbatim>\<open>try\<close>, which
  throws on \<^verbatim>\<open>null\<close>, and the \<^verbatim>\<open>catch\<close> answers.
\<close>

theorem scim_post_null_body:
  "req_method (demo_post JNull) = ''POST''
   \<and> org_key demo_scim_env (demo_post JNull) ''org-1''
   \<and> parsed_body demo_scim_env (demo_post JNull) = Some JNull
   \<and> fld JNull ''userName'' = JUndefined
   \<and> handler demo_scim_env demo_world (demo_post JNull)
       = (scim_error 500 ''Internal server error'', demo_world)"
proof -
  have k: "org_key demo_scim_env (demo_post JNull) ''org-1''"
    by (simp add: org_key_def demo_scim_env_def demo_post_def demo_request_def)
  have "handler demo_scim_env demo_world (demo_post JNull)
      = scim_post demo_scim_env demo_world ''org-1'' JNull"
    using handler_org_key [OF k, of demo_world]
    by (simp add: demo_post_def demo_request_def)
  with k show ?thesis
    by (simp add: scim_post_def internal_error_def parsed_body_def demo_post_def
        demo_request_def)
qed

text \<open>
  C5, amended. Every failure is answered with an HTTP status and a body of the SCIM error
  schema: a method other than GET and POST with 405, a key that is not valid with 401, a
  valid key that is not scoped to an organization with 403, a POST whose body does not
  parse with 400, a POST whose parsed body is neither \<^verbatim>\<open>null\<close> nor \<^verbatim>\<open>undefined\<close> and has
  no \<^verbatim>\<open>userName\<close> with 400, a POST with a \<^verbatim>\<open>userName\<close> and invalid roles with 400, and
  a POST whose parsed body is \<^verbatim>\<open>null\<close> or \<^verbatim>\<open>undefined\<close> with 500. Every response other
  than 200 and 201 carries the schema \<^verbatim>\<open>urn:ietf:params:scim:api:messages:2.0:Error\<close> and
  a \<^verbatim>\<open>status\<close> field equal to its HTTP status.
\<close>

theorem scim_failures_mapped:
  "(req_method req \<noteq> ''GET'' \<and> req_method req \<noteq> ''POST''
      \<longrightarrow> fst (handler env w req) = scim_error 405 ''Method not allowed'')
   \<and> (req_method req \<in> {''GET'', ''POST''}
        \<and> verifyAuthHeaderAndReturnScope env (authorization req) = InvalidKey e
      \<longrightarrow> fst (handler env w req) = scim_error 401 e)
   \<and> (req_method req \<in> {''GET'', ''POST''}
        \<and> verifyAuthHeaderAndReturnScope env (authorization req) = ValidKey sc
        \<and> (accessLevel sc \<noteq> ''organization'' \<or> orgId sc = None \<or> orgId sc = Some [])
      \<longrightarrow> status (fst (handler env w req)) = 403 \<and> is_scim_error (fst (handler env w req)))
   \<and> (req_method req = ''POST'' \<and> org_key env req org \<and> parsed_body env req = None
      \<longrightarrow> fst (handler env w req) = scim_error 400 ''Invalid JSON body'')
   \<and> (req_method req = ''POST'' \<and> org_key env req org \<and> parsed_body env req = Some b
        \<and> b \<noteq> JNull \<and> b \<noteq> JUndefined \<and> \<not> truthy (fld b ''userName'')
      \<longrightarrow> fst (handler env w req) = scim_error 400 ''userName is required'')
   \<and> (req_method req = ''POST'' \<and> org_key env req org \<and> parsed_body env req = Some b
        \<and> truthy (fld b ''userName'') \<and> invalid_roles (fld b ''roles'')
      \<longrightarrow> status (fst (handler env w req)) = 400 \<and> is_scim_error (fst (handler env w req)))
   \<and> (req_method req = ''POST'' \<and> org_key env req org
        \<and> (parsed_body env req = Some JNull \<or> parsed_body env req = Some JUndefined)
      \<longrightarrow> handler env w req = (scim_error 500 ''Internal server error'', w))
   \<and> (status (fst (handler env w req)) \<in> {200, 201} \<or> is_scim_error (fst (handler env w req)))"
proof (intro conjI impI)
  assume "req_method req \<noteq> ''GET'' \<and> req_method req \<noteq> ''POST''"
  then show "fst (handler env w req) = scim_error 405 ''Method not allowed''"
    by (simp add: handler_def)
next
  assume "req_method req \<in> {''GET'', ''POST''}
     \<and> verifyAuthHeaderAndReturnScope env (authorization req) = InvalidKey e"
  then show "fst (handler env w req) = scim_error 401 e"
    by (auto simp: handler_def)
next
  assume a: "req_method req \<in> {''GET'', ''POST''}
     \<and> verifyAuthHeaderAndReturnScope env (authorization req) = ValidKey sc
     \<and> (accessLevel sc \<noteq> ''organization'' \<or> orgId sc = None \<or> orgId sc = Some [])"
  then have "fst (handler env w req) = scim_error 403
      ''Invalid API key. Organization-scoped API key required for this operation.''"
    by (auto simp: handler_def split: option.splits)
  then show "status (fst (handler env w req)) = 403" "is_scim_error (fst (handler env w req))"
    by (simp_all add: scim_error_is) (simp add: scim_error_def)
next
  assume a: "req_method req = ''POST'' \<and> org_key env req org \<and> parsed_body env req = None"
  then have "handler env w req = scim_post env w org (req_body req)"
    using handler_org_key [of env req org w] by simp
  with a show "fst (handler env w req) = scim_error 400 ''Invalid JSON body''"
    by (simp add: scim_post_def parsed_body_def)
next
  assume a: "req_method req = ''POST'' \<and> org_key env req org \<and> parsed_body env req = Some b
     \<and> b \<noteq> JNull \<and> b \<noteq> JUndefined \<and> \<not> truthy (fld b ''userName'')"
  then have "handler env w req = scim_post env w org (req_body req)"
    using handler_org_key [of env req org w] by simp
  with a show "fst (handler env w req) = scim_error 400 ''userName is required''"
    by (simp add: scim_post_def parsed_body_def)
next
  assume a: "req_method req = ''POST'' \<and> org_key env req org \<and> parsed_body env req = Some b
     \<and> truthy (fld b ''userName'') \<and> invalid_roles (fld b ''roles'')"
  then have h: "handler env w req = scim_post env w org (req_body req)"
    using handler_org_key [of env req org w] by simp
  from a have nn: "b \<noteq> JNull" "b \<noteq> JUndefined" by auto
  from a have pr: "parse_roles (fld b ''roles'') = None" by (simp add: parse_roles_None)
  from a nn pr have "fst (scim_post env w org (req_body req)) =
      scim_error 400 (''Invalid roles provided: '' @ JSON_stringify env (fld b ''roles'')
                          @ '', must be one of OWNER, ADMIN, MEMBER, VIEWER, NONE'')"
    by (simp add: scim_post_def parsed_body_def)
  with h show "status (fst (handler env w req)) = 400" "is_scim_error (fst (handler env w req))"
    by (simp_all add: scim_error_is) (simp add: scim_error_def)
next
  assume a: "req_method req = ''POST'' \<and> org_key env req org
     \<and> (parsed_body env req = Some JNull \<or> parsed_body env req = Some JUndefined)"
  then have "handler env w req = scim_post env w org (req_body req)"
    using handler_org_key [of env req org w] by simp
  with a show "handler env w req = (scim_error 500 ''Internal server error'', w)"
    by (auto simp: scim_post_def parsed_body_def internal_error_def)
next
  show "status (fst (handler env w req)) \<in> {200, 201} \<or> is_scim_error (fst (handler env w req))"
    by (rule handler_status)
qed

theorem scim_failures_mapped_witness:
  "fst (handler demo_scim_env demo_world (demo_request ''DELETE'' None JNull))
     = scim_error 405 ''Method not allowed''
   \<and> fst (handler demo_scim_env demo_world (demo_request ''GET'' (Some ''Bearer nobody'') JNull))
     = scim_error 401 ''Invalid credentials''
   \<and> status (fst (handler demo_scim_env demo_world
        (demo_request ''GET'' (Some ''Bearer project-key'') JNull))) = 403
   \<and> fst (handler demo_scim_env demo_world
        (demo_request ''POST'' (Some ''Bearer org-key'') (JStr ''{userName''))) 
     = scim_error 400 ''Invalid JSON body''
   \<and> fst (handler demo_scim_env demo_world
        (demo_request ''POST'' (Some ''Bearer org-key'') (JStr ''{}'')))
     = scim_error 400 ''userName is required''
   \<and> status (fst (handler demo_scim_env demo_world
        (demo_request ''POST'' (Some ''Bearer org-key'')
           (JObj [(''userName'', JStr ''dave@example.com''), (''roles'', JArr [JStr ''ROOT''])]))))
     = 400
   \<and> handler demo_scim_env demo_world (demo_request ''POST'' (Some ''Bearer org-key'') JUndefined)
     = (scim_error 500 ''Internal server error'', demo_world)"
proof -
  let ?e = demo_scim_env and ?w = demo_world
  let ?r1 = "demo_request ''DELETE'' None JNull"
  let ?r2 = "demo_request ''GET'' (Some ''Bearer nobody'') JNull"
  let ?r3 = "demo_request ''GET'' (Some ''Bearer project-key'') JNull"
  let ?r4 = "demo_request ''POST'' (Some ''Bearer org-key'') (JStr ''{userName'')"
  let ?r5 = "demo_request ''POST'' (Some ''Bearer org-key'') (JStr ''{}'')"
  let ?b6 = "JObj [(''userName'', JStr ''dave@example.com''), (''roles'', JArr [JStr ''ROOT''])]"
  let ?r6 = "demo_request ''POST'' (Some ''Bearer org-key'') ?b6"
  have k: "org_key ?e (demo_request ''POST'' (Some ''Bearer org-key'') b) ''org-1''" for b
    by (simp add: org_key_def demo_scim_env_def demo_request_def)
  have h1: "req_method ?r1 \<noteq> ''GET'' \<and> req_method ?r1 \<noteq> ''POST''"
    by (simp add: demo_request_def)
  have h2: "req_method ?r2 \<in> {''GET'', ''POST''}
      \<and> verifyAuthHeaderAndReturnScope ?e (authorization ?r2) = InvalidKey ''Invalid credentials''"
    by (simp add: demo_request_def demo_scim_env_def)
  have h3: "req_method ?r3 \<in> {''GET'', ''POST''}
      \<and> verifyAuthHeaderAndReturnScope ?e (authorization ?r3)
          = ValidKey \<lparr>accessLevel = ''project'', orgId = Some ''org-1''\<rparr>
      \<and> (accessLevel \<lparr>accessLevel = ''project'', orgId = Some ''org-1''\<rparr> \<noteq> ''organization''
          \<or> orgId \<lparr>accessLevel = ''project'', orgId = Some ''org-1''\<rparr> = None
          \<or> orgId \<lparr>accessLevel = ''project'', orgId = Some ''org-1''\<rparr> = Some [])"
    by (simp add: demo_request_def demo_scim_env_def)
  have h4: "req_method ?r4 = ''POST'' \<and> org_key ?e ?r4 ''org-1'' \<and> parsed_body ?e ?r4 = None"
    by (simp add: k) (simp add: demo_request_def demo_scim_env_def parsed_body_def)
  have h5: "req_method ?r5 = ''POST'' \<and> org_key ?e ?r5 ''org-1''
      \<and> parsed_body ?e ?r5 = Some (JObj [])
      \<and> JObj [] \<noteq> JNull \<and> JObj [] \<noteq> JUndefined \<and> \<not> truthy (fld (JObj []) ''userName'')"
    by (simp add: k) (simp add: demo_request_def demo_scim_env_def parsed_body_def)
  have h6: "req_method ?r6 = ''POST'' \<and> org_key ?e ?r6 ''org-1''
      \<and> parsed_body ?e ?r6 = Some ?b6
      \<and> truthy (fld ?b6 ''userName'') \<and> invalid_roles (fld ?b6 ''roles'')"
    by (simp add: k)
       (simp add: demo_request_def demo_scim_env_def parsed_body_def invalid_roles_def
          role_names_def)
  let ?r7 = "demo_request ''POST'' (Some ''Bearer org-key'') JUndefined"
  have h7: "req_method ?r7 = ''POST'' \<and> org_key ?e ?r7 ''org-1''
      \<and> (parsed_body ?e ?r7 = Some JNull \<or> parsed_body ?e ?r7 = Some JUndefined)"
    by (simp add: k) (simp add: demo_request_def parsed_body_def)
  from h7 scim_failures_mapped [where req = ?r7 and env = ?e and w = ?w and org = "''org-1''"]
  have c7: "handler ?e ?w ?r7 = (scim_error 500 ''Internal server error'', ?w)"
    by blast
  from h1 scim_failures_mapped [where req = ?r1 and env = ?e and w = ?w]
  have c1: "fst (handler ?e ?w ?r1) = scim_error 405 ''Method not allowed''"
    by blast
  from h2 scim_failures_mapped [where req = ?r2 and env = ?e and w = ?w
      and e = "''Invalid credentials''"]
  have c2: "fst (handler ?e ?w ?r2) = scim_error 401 ''Invalid credentials''"
    by blast
  from h3 scim_failures_mapped [where req = ?r3 and env = ?e and w = ?w
      and sc = "\<lparr>accessLevel = ''project'', orgId = Some ''org-1''\<rparr>"]
  have c3: "status (fst (handler ?e ?w ?r3)) = 403"
    by blast
  from h4 scim_failures_mapped [where req = ?r4 and env = ?e and w = ?w and org = "''org-1''"]
  have c4: "fst (handler ?e ?w ?r4) = scim_error 400 ''Invalid JSON body''"
    by blast
  from h5 scim_failures_mapped [where req = ?r5 and env = ?e and w = ?w and org = "''org-1''"
      and b = "JObj []"]
  have c5: "fst (handler ?e ?w ?r5) = scim_error 400 ''userName is required''"
    by blast
  from h6 scim_failures_mapped [where req = ?r6 and env = ?e and w = ?w and org = "''org-1''"
      and b = ?b6]
  have c6: "status (fst (handler ?e ?w ?r6)) = 400"
    by blast
  from c1 c2 c3 c4 c5 c6 c7 show ?thesis by blast
qed

lemma org_key_demo_get: "org_key demo_scim_env (demo_get f si c) ''org-1''"
  by (simp add: org_key_def demo_scim_env_def demo_get_def)

lemma length_insert_by: "length (insert_by le x xs) = Suc (length xs)"
  by (induction xs) auto

lemma length_order_by: "length (order_by le xs) = length xs"
  by (induction xs) (auto simp: order_by_def length_insert_by)

lemma demo_members:
  "memberships_where (tables demo_world) (matches []) ''org-1''
     = [([(''id'', JStr ''m2''), (''userId'', JStr ''u2''), (''orgId'', JStr ''org-1''),
          (''role'', JStr ''MEMBER'')],
         [(''id'', JStr ''u2''), (''email'', JStr ''bob@example.com'')]),
        ([(''id'', JStr ''m1''), (''userId'', JStr ''u1''), (''orgId'', JStr ''org-1''),
          (''role'', JStr ''OWNER'')],
         [(''id'', JStr ''u1''), (''email'', JStr ''alice@example.com''),
          (''name'', JStr ''Alice'')])]"
  by (simp add: memberships_where_def demo_world_def col_def matches_def)

lemma demo_members_by_id:
  "by_membership_id demo_world (memberships_where (tables demo_world) (matches []) ''org-1'')
     = [([(''id'', JStr ''m1''), (''userId'', JStr ''u1''), (''orgId'', JStr ''org-1''),
          (''role'', JStr ''OWNER'')],
         [(''id'', JStr ''u1''), (''email'', JStr ''alice@example.com''),
          (''name'', JStr ''Alice'')]),
        ([(''id'', JStr ''m2''), (''userId'', JStr ''u2''), (''orgId'', JStr ''org-1''),
          (''role'', JStr ''MEMBER'')],
         [(''id'', JStr ''u2''), (''email'', JStr ''bob@example.com'')])]"
  unfolding demo_members
  by (simp add: by_membership_id_def order_by_def demo_world_def binary_le_def col_def)

lemma demo_bound: "int_bound demo_world = 2 ^ 63 - 1"
  by (simp add: demo_world_def)

lemma scim_get_eval:
  assumes "query_int si 1 = Finite s" and "query_int c 100 = Finite n"
    and "\<bar>s - 1\<bar> < 2 ^ 53" and "\<bar>s - 1\<bar> < 2 ^ 63" and "\<bar>n\<bar> < 2 ^ 63"
  shows "handler demo_scim_env demo_world (demo_get QAbsent si c)
     = (case paginate (2 ^ 63 - 1) (Finite (s - 1)) (Finite n)
               (by_membership_id demo_world
                  (memberships_where (tables demo_world) (matches []) ''org-1'')) of
          Inl e \<Rightarrow> internal_error
        | Inr page \<Rightarrow> list_response 2 s (map snd page), demo_world)"
proof -
  have "handler demo_scim_env demo_world (demo_get QAbsent si c)
      = (scim_get demo_scim_env demo_world ''org-1'' (req_query (demo_get QAbsent si c)), demo_world)"
    using handler_org_key [OF org_key_demo_get, of demo_world QAbsent si c]
    by (simp add: demo_get_def)
  moreover have "minus_one (Finite s) = Finite (s - 1)"
    using assms(3) by (simp add: minus_one_def to_double_exact)
  ultimately show ?thesis
    using assms(1,2)
    by (simp add: scim_get_def demo_get_def filter_where_def Let_def demo_bound demo_members
        list_response_def number_json_def split: sum.split)
qed

text \<open>
  C10, as stated, fails. A start index that parses to a negative number is passed on as
  a negative \<^verbatim>\<open>skip\<close>, which the ORM refuses, and the request is answered with 500. A
  count of \<^verbatim>\<open>-1\<close> is passed on as a negative \<^verbatim>\<open>take\<close>, which returns the last membership:
  one user, which is more than the count. A count of \<^verbatim>\<open>0\<close> is replaced by the default
  100, and the two members are returned.
\<close>

theorem scim_get_outside_range:
  "handler demo_scim_env demo_world (demo_get QAbsent (QStr ''-3'') QAbsent)
     = (scim_error 500 ''Internal server error'', demo_world)
   \<and> query_int (QStr ''-3'') 1 = Finite (- 3)
   \<and> handler demo_scim_env demo_world (demo_get QAbsent QAbsent (QStr ''-1''))
     = (list_response 2 1 [[(''id'', JStr ''u2''), (''email'', JStr ''bob@example.com'')]],
        demo_world)
   \<and> query_int (QStr ''-1'') 100 = Finite (- 1)
   \<and> handler demo_scim_env demo_world (demo_get QAbsent QAbsent (QStr ''0''))
     = (list_response 2 1
          [[(''id'', JStr ''u1''), (''email'', JStr ''alice@example.com''),
            (''name'', JStr ''Alice'')],
           [(''id'', JStr ''u2''), (''email'', JStr ''bob@example.com'')]],
        demo_world)
   \<and> parseInt ''0'' = Finite 0"
proof -
  have q: "query_int (QStr ''-3'') 1 = Finite (- 3)" "query_int QAbsent 1 = Finite 1"
    "query_int QAbsent 100 = Finite 100" "query_int (QStr ''-1'') 100 = Finite (- 1)"
    "query_int (QStr ''0'') 100 = Finite 100" "parseInt ''0'' = Finite 0"
    by (simp_all add: parse_simps)
  have 1: "handler demo_scim_env demo_world (demo_get QAbsent (QStr ''-3'') QAbsent)
     = (scim_error 500 ''Internal server error'', demo_world)"
    using scim_get_eval [OF q(1) q(3)]
    by (simp add: paginate_def orm_int_def internal_error_def)
  have 2: "handler demo_scim_env demo_world (demo_get QAbsent QAbsent (QStr ''-1''))
     = (list_response 2 1 [[(''id'', JStr ''u2''), (''email'', JStr ''bob@example.com'')]],
        demo_world)"
    using scim_get_eval [OF q(2) q(4)]
    by (simp add: paginate_def orm_int_def demo_members_by_id)
  have 3: "handler demo_scim_env demo_world (demo_get QAbsent QAbsent (QStr ''0''))
     = (list_response 2 1
          [[(''id'', JStr ''u1''), (''email'', JStr ''alice@example.com''),
            (''name'', JStr ''Alice'')],
           [(''id'', JStr ''u2''), (''email'', JStr ''bob@example.com'')]],
        demo_world)"
    using scim_get_eval [OF q(2) q(5)]
    by (simp add: paginate_def orm_int_def demo_members_by_id)
  from 1 2 3 q show ?thesis by simp
qed

text \<open>
  C10, amended. For a GET with a valid organization-scoped key: the start index is 1 and
  the count 100 when the parameter is absent, when \<^verbatim>\<open>parseInt\<close> reads no number from it,
  and when it reads zero; otherwise they are the numbers \<^verbatim>\<open>parseInt\<close> reads. When the
  start index is at least 1 and at most \<open>2 ^ 53\<close>, the count is not negative, and the start
  index minus 1 and the count are within the integers the ORM takes, the response is the
  list response whose \<^verbatim>\<open>startIndex\<close> is the start index, whose \<^verbatim>\<open>totalResults\<close> is the
  number of matching memberships of the organization, and whose \<^verbatim>\<open>Resources\<close> are the
  users of at most count memberships after the first start index minus 1 in the order of
  the membership ids, \<^verbatim>\<open>itemsPerPage\<close> being their number. The store is not changed.
\<close>

theorem scim_get_page:
  assumes "req_method req = ''GET''" and "org_key env req org"
    and "si = query_int (startIndex (req_query req)) 1"
    and "cnt = query_int (count_param (req_query req)) 100"
    and "found = by_membership_id w
                   (memberships_where (tables w)
                      (matches (filter_where env (filter_param (req_query req)))) org)"
  shows "(startIndex (req_query req) = QAbsent \<longrightarrow> si = Finite 1)
       \<and> (count_param (req_query req) = QAbsent \<longrightarrow> cnt = Finite 100)
       \<and> (\<forall>s. startIndex (req_query req) = QStr s
              \<longrightarrow> si = (if parseInt s = NaN \<or> parseInt s = Finite 0 then Finite 1
                        else parseInt s))
       \<and> (\<forall>s. count_param (req_query req) = QStr s
              \<longrightarrow> cnt = (if parseInt s = NaN \<or> parseInt s = Finite 0 then Finite 100
                         else parseInt s))
       \<and> (\<forall>s c. si = Finite s \<and> cnt = Finite c
                \<and> 1 \<le> s \<and> s \<le> 2 ^ 53 \<and> s - 1 \<le> int_bound w
                \<and> 0 \<le> c \<and> c \<le> int_bound w \<longrightarrow>
            handler env w req
              = (list_response (length found) s
                   (take (nat c) (drop (nat (s - 1)) (map snd found))), w)
            \<and> length (take (nat c) (drop (nat (s - 1)) (map snd found))) \<le> nat c)"
proof -
  have h: "handler env w req = (scim_get env w org (req_query req), w)"
    using handler_org_key [OF assms(2), of w] assms(1) by simp
  have d: "query_int QAbsent 1 = Finite 1" "query_int QAbsent 100 = Finite 100"
    by (simp_all add: parse_simps)
  have p: "query_int (QStr s) n
      = (if parseInt s = NaN \<or> parseInt s = Finite 0 then Finite (int n) else parseInt s)" for s n
    by (cases "parseInt s") (simp_all add: query_int_def or_default_def)
  have page: "scim_get env w org (req_query req)
        = list_response (length found) s (take (nat c) (drop (nat (s - 1)) (map snd found)))"
    if a: "si = Finite s \<and> cnt = Finite c \<and> 1 \<le> s \<and> s \<le> 2 ^ 53 \<and> s - 1 \<le> int_bound w
         \<and> 0 \<le> c \<and> c \<le> int_bound w" for s c
  proof -
    from a have "\<bar>s - 1\<bar> < 2 ^ 53" by simp
    then have m: "minus_one (Finite s) = Finite (s - 1)"
      by (simp add: minus_one_def to_double_exact)
    from a have o: "orm_int (int_bound w) (Finite (s - 1)) = Some (s - 1)"
      "orm_int (int_bound w) (Finite c) = Some c"
      by (simp_all add: orm_int_def)
    have l: "length found
        = length (memberships_where (tables w)
                    (matches (filter_where env (filter_param (req_query req)))) org)"
      by (simp add: assms(5) by_membership_id_def length_order_by)
    from a have "paginate (int_bound w) (minus_one si) cnt found
        = Inr (take (nat c) (drop (nat (s - 1)) found))"
      by (simp add: paginate_def m o)
    then show ?thesis
      using a l assms(3-5)
      by (simp add: scim_get_def list_response_def Let_def take_map drop_map number_json_def)
  qed
  show ?thesis
    using h assms(3,4) d p page by auto
qed

theorem scim_get_page_witness:
  "handler demo_scim_env demo_world (demo_get QAbsent (QStr ''2'') (QStr ''1''))
     = (list_response 2 2 [[(''id'', JStr ''u2''), (''email'', JStr ''bob@example.com'')]],
        demo_world)
   \<and> query_int QAbsent 1 = Finite 1 \<and> query_int (QStr ''abc'') 100 = Finite 100
   \<and> query_int (QStr ''0'') 100 = Finite 100"
proof -
  let ?r = "demo_get QAbsent (QStr ''2'') (QStr ''1'')"
  let ?a = "demo_get QAbsent QAbsent (QStr ''abc'')"
  let ?z = "demo_get QAbsent QAbsent (QStr ''0'')"
  have q: "query_int (QStr ''2'') 1 = Finite 2" "query_int (QStr ''1'') 100 = Finite 1"
    "parseInt ''abc'' = NaN" "parseInt ''0'' = Finite 0"
    by (simp_all add: parse_simps)
  have m: "req_method (demo_get f si c) = ''GET''" for f si c
    by (simp add: demo_get_def)
  have fw: "filter_where demo_scim_env (filter_param (req_query ?r)) = []"
    by (simp add: demo_get_def filter_where_def)
  have "handler demo_scim_env demo_world ?r
      = (list_response 2 2 [[(''id'', JStr ''u2''), (''email'', JStr ''bob@example.com'')]],
         demo_world)"
    using scim_get_page [OF m org_key_demo_get refl refl refl, of QAbsent "QStr ''2''" "QStr ''1''"
        demo_world]
    by (simp add: demo_get_def q filter_where_def demo_members_by_id demo_bound numeral_2_eq_2
        del: One_nat_def)
  moreover have "query_int QAbsent 1 = Finite 1"
    using scim_get_page [OF m org_key_demo_get refl refl refl, of QAbsent QAbsent QAbsent
        demo_world]
    by (simp add: demo_get_def)
  moreover have "query_int (QStr ''abc'') 100 = Finite 100"
    using scim_get_page [OF m org_key_demo_get refl refl refl, of QAbsent QAbsent "QStr ''abc''"
        demo_world] q(3)
    by (simp add: demo_get_def)
  moreover have "query_int (QStr ''0'') 100 = Finite 100"
    using scim_get_page [OF m org_key_demo_get refl refl refl, of QAbsent QAbsent "QStr ''0''"
        demo_world] q(4)
    by (simp add: demo_get_def)
  ultimately show ?thesis by simp
qed
lemma find_index_None: "find_index P xs = None \<longleftrightarrow> (\<forall>x \<in> set xs. \<not> P x)"
  by (induction xs) auto

lemma find_index_Some: "find_index P xs = Some i \<Longrightarrow> i < length xs \<and> P (xs ! i)"
proof (induction xs arbitrary: i)
  case Nil
  then show ?case by simp
next
  case (Cons x xs)
  then show ?case by (auto split: if_splits)
qed

lemma apply_update_empty: "apply_update r [] = r"
  by (simp add: apply_update_def defined_columns_def)

lemma upsert_empty_update_found:
  "find_index (matches wh) (tables w m) = Some i \<Longrightarrow>
   upsert m wh cr [] w = Inr (tables w m ! i, w)"
  by (simp add: upsert_def apply_update_empty)

lemma map_filter_Nil: "List.map_filter f xs = [] \<longleftrightarrow> (\<forall>x \<in> set xs. f x = None)"
  by (induction xs) (auto simp: List.map_filter_simps split: option.splits)

lemma find_Some_first:
  "find P xs = Some y \<Longrightarrow> y \<in> set xs \<and> P y"
  by (induction xs) (auto split: if_splits)

lemma find_None_iff': "find P xs = None \<longleftrightarrow> (\<forall>x \<in> set xs. \<not> P x)"
  by (induction xs) auto

text \<open>No membership of the organization belongs to the user.\<close>

lemma no_membership_of_user:
  assumes none: "memberships_where (tables w) (matches [(''email'', e)]) org = []"
    and keyed: "users_keyed w"
    and u: "user \<in> set (tables w User)" "col user ''email'' = e"
    and m: "m \<in> set (tables w OrganizationMembership)"
  shows "\<not> (col m ''orgId'' = JStr org \<and> col m ''userId'' = col user ''id'')"
proof
  assume a: "col m ''orgId'' = JStr org \<and> col m ''userId'' = col user ''id''"
  from keyed u(1) have s: "is_string (col user ''id'')"
    by (auto simp: users_keyed_def user_ids_def list_all_iff)
  then have nn: "col m ''userId'' \<noteq> JNull" using a by (cases "col user ''id''") auto
  from u(1) a have "find (\<lambda>u'. col u' ''id'' = col m ''userId'') (tables w User) \<noteq> None"
    by (auto simp: find_None_iff')
  then obtain u1 where f: "find (\<lambda>u'. col u' ''id'' = col m ''userId'') (tables w User) = Some u1"
    by auto
  then have "u1 \<in> set (tables w User)" "col u1 ''id'' = col user ''id''"
    using a by (auto dest: find_Some_first)
  with keyed u(1) have "u1 = user"
    by (auto simp: users_keyed_def user_ids_def distinct_map inj_on_def)
  with f u(2) a nn none m show False
    by (auto simp: memberships_where_def map_filter_Nil matches_def)
qed


lemma map_of_defaults:
  "map_of r k = None \<Longrightarrow> map_of (filter (\<lambda>(k', v). map_of r k' = None) ds) k = map_of ds k"
  by (induction ds) auto

lemma col_with_defaults:
  "col (with_defaults r ds) k = (if map_of r k = None then col ds k else col r k)"
  by (auto simp: with_defaults_def col_def map_of_defaults map_add_def split: option.splits)

lemma create_membership_ok:
  assumes uid: "is_string uid"
    and idf: "\<forall>m \<in> set (tables w OrganizationMembership). col m ''id'' \<noteq> JStr (cuid w (issued w))"
    and nom: "\<forall>m \<in> set (tables w OrganizationMembership).
                \<not> (col m ''orgId'' = JStr org \<and> col m ''userId'' = uid)"
  shows "\<exists>r. create OrganizationMembership
             [(''userId'', uid), (''orgId'', JStr org), (''role'', JStr role)] w
           = Inr (r, w\<lparr>issued := Suc (issued w),
                      tables := (tables w)(OrganizationMembership :=
                                   tables w OrganizationMembership @ [r])\<rparr>)
         \<and> col r ''userId'' = uid \<and> col r ''orgId'' = JStr org \<and> col r ''role'' = JStr role"
proof -
  from uid obtain s where s: "uid = JStr s" by (cases uid) auto
  let ?r0 = "[(''id'', JStr (cuid w (issued w))), (''userId'', uid), (''orgId'', JStr org),
              (''role'', JStr role)]"
  let ?r = "with_defaults ?r0 (column_defaults w OrganizationMembership)"
  have cols: "col ?r ''id'' = JStr (cuid w (issued w))" "col ?r ''userId'' = uid"
    "col ?r ''orgId'' = JStr org" "col ?r ''role'' = JStr role"
    by (simp_all add: col_with_defaults) (simp_all add: col_def)
  have "\<not> violates OrganizationMembership (tables w OrganizationMembership) ?r"
    using idf nom s cols
    by (auto simp: violates_def list_ex_iff clashes_def key_of_def)
  then show ?thesis
    using s cols by (auto simp: create_def defined_columns_def Let_def)
qed

lemma create_member_ok:
  assumes nm: "optional_string nm"
    and pw: "pw = JUndefined \<or> is_string pw"
    and none: "memberships_where (tables w) (matches [(''email'', JStr (toLowerCase env u))]) org = []"
    and keyed: "users_keyed w"
    and fresh: "fresh_ids w"
  shows "\<exists>user membership w'.
           create_member env w org u nm pw role
             = (\<lparr>status = 201, body = scim_created_user user\<rparr>, w')
           \<and> member_created w w' org (toLowerCase env u) role user membership"
proof (cases "find_index (matches [(''email'', JStr (toLowerCase env u))]) (tables w User)")
  case (Some i)
  let ?user = "tables w User ! i"
  from find_index_Some [OF Some]
  have i: "?user \<in> set (tables w User)" "col ?user ''email'' = JStr (toLowerCase env u)"
    by (auto simp: matches_def)
  have up: "upsert User [(''email'', JStr (toLowerCase env u))]
              [(''email'', JStr (toLowerCase env u)), (''name'', nm), (''password'', pw)] [] w
            = Inr (?user, w)"
    using Some by (rule upsert_empty_update_found)
  from keyed i(1) have s: "is_string (col ?user ''id'')"
    by (auto simp: users_keyed_def user_ids_def list_all_iff)
  have idf: "\<forall>m \<in> set (tables w OrganizationMembership). col m ''id'' \<noteq> JStr (cuid w (issued w))"
    using fresh by (auto simp: fresh_ids_def list_all_iff)
  have nom: "\<forall>m \<in> set (tables w OrganizationMembership).
                \<not> (col m ''orgId'' = JStr org \<and> col m ''userId'' = col ?user ''id'')"
    using no_membership_of_user [OF none keyed i] by blast
  from create_membership_ok [OF s idf nom, of role]
  obtain r where r: "create OrganizationMembership
             [(''userId'', col ?user ''id''), (''orgId'', JStr org), (''role'', JStr role)] w
           = Inr (r, w\<lparr>issued := Suc (issued w),
                      tables := (tables w)(OrganizationMembership :=
                                   tables w OrganizationMembership @ [r])\<rparr>)"
     "col r ''userId'' = col ?user ''id''" "col r ''orgId'' = JStr org" "col r ''role'' = JStr role"
    by blast
  have ex: "list_ex (\<lambda>r. col r ''email'' = JStr (toLowerCase env u)) (tables w User)"
    using i by (auto simp: list_ex_iff)
  show ?thesis
    apply (rule exI [of _ ?user])
    apply (rule exI [of _ r])
    apply (rule exI [of _ "w\<lparr>issued := Suc (issued w),
                      tables := (tables w)(OrganizationMembership :=
                                   tables w OrganizationMembership @ [r])\<rparr>"])
    using nm up r i ex
    apply (simp add: create_member_def member_created_def)
    done
next
  case None
  let ?c = "JStr (cuid w (issued w))"
  let ?d = "defined_columns [(''email'', JStr (toLowerCase env u)), (''name'', nm), (''password'', pw)]"
  let ?user = "with_defaults ((''id'', ?c) # ?d) (column_defaults w User)"
  let ?w1 = "w\<lparr>issued := Suc (issued w), tables := (tables w)(User := tables w User @ [?user])\<rparr>"
  have noemail: "\<forall>r \<in> set (tables w User). col r ''email'' \<noteq> JStr (toLowerCase env u)"
    using None by (auto simp: find_index_None matches_def)
  have noid: "\<forall>r \<in> set (tables w User). col r ''id'' \<noteq> ?c"
    using fresh by (force simp: fresh_ids_def user_ids_def)
  have nid: "map_of ?d ''id'' = None"
    by (simp add: defined_columns_def)
  have cols: "col ?user ''id'' = ?c" "col ?user ''email'' = JStr (toLowerCase env u)"
    "col ?user ''createdAt'' = col (column_defaults w User) ''createdAt''"
    "col ?user ''updatedAt'' = col (column_defaults w User) ''updatedAt''"
    by (simp_all add: col_with_defaults) (simp_all add: col_def defined_columns_def)
  have "\<not> violates User (tables w User) ?user"
    using noemail noid cols
    by (auto simp: violates_def list_ex_iff clashes_def key_of_def)
  then have up: "upsert User [(''email'', JStr (toLowerCase env u))]
              [(''email'', JStr (toLowerCase env u)), (''name'', nm), (''password'', pw)] [] w
            = Inr (?user, ?w1)"
    using None nid by (simp add: upsert_def create_def Let_def)
  have s: "is_string (col ?user ''id'')" using cols by simp
  have idf: "\<forall>m \<in> set (tables ?w1 OrganizationMembership).
               col m ''id'' \<noteq> JStr (cuid ?w1 (issued ?w1))"
    using fresh by (auto simp: fresh_ids_def list_all_iff)
  have nom: "\<forall>m \<in> set (tables ?w1 OrganizationMembership).
                \<not> (col m ''orgId'' = JStr org \<and> col m ''userId'' = col ?user ''id'')"
    using fresh cols by (auto simp: fresh_ids_def list_all_iff)
  from create_membership_ok [OF s idf nom, of role]
  obtain r where r: "create OrganizationMembership
             [(''userId'', col ?user ''id''), (''orgId'', JStr org), (''role'', JStr role)] ?w1
           = Inr (r, ?w1\<lparr>issued := Suc (issued ?w1),
                      tables := (tables ?w1)(OrganizationMembership :=
                                   tables ?w1 OrganizationMembership @ [r])\<rparr>)"
     "col r ''userId'' = col ?user ''id''" "col r ''orgId'' = JStr org" "col r ''role'' = JStr role"
    by blast
  have ex: "\<not> list_ex (\<lambda>r. col r ''email'' = JStr (toLowerCase env u)) (tables w User)"
    using noemail by (auto simp: list_ex_iff)
  show ?thesis
    apply (rule exI [of _ ?user])
    apply (rule exI [of _ r])
    apply (rule exI [of _ "?w1\<lparr>issued := Suc (issued ?w1),
                      tables := (tables ?w1)(OrganizationMembership :=
                                   tables ?w1 OrganizationMembership @ [r])\<rparr>"])
    using nm up r ex cols
    apply (simp add: create_member_def member_created_def)
    done
qed


lemma lower_demo:
  "toLowerCase demo_scim_env ''Alice@Example.com'' = ''alice@example.com''"
  "toLowerCase demo_scim_env ''Dave@Example.com'' = ''dave@example.com''"
  by (simp_all add: demo_scim_env_def ascii_lower_def)

lemma org_key_demo_post: "org_key demo_scim_env (demo_post b) ''org-1''"
  by (simp add: org_key_def demo_scim_env_def demo_post_def demo_request_def)

lemma demo_no_dave:
  "memberships_where (tables demo_world) (matches [(''email'', JStr ''Dave@Example.com'')]) ''org-1''
     = []"
  "memberships_where (tables demo_world) (matches [(''email'', JStr ''dave@example.com'')]) ''org-1''
     = []"
  by (simp_all add: memberships_where_def demo_world_def col_def matches_def)

lemma demo_alice:
  "memberships_where (tables demo_world) (matches [(''email'', JStr ''alice@example.com'')]) ''org-1''
     \<noteq> []"
  "memberships_where (tables demo_world) (matches [(''email'', JStr ''Alice@Example.com'')]) ''org-1''
     = []"
  by (simp_all add: memberships_where_def demo_world_def col_def matches_def)

lemma demo_world_ok: "users_keyed demo_world" "fresh_ids demo_world"
  by (simp_all add: users_keyed_def fresh_ids_def user_ids_def demo_world_def col_def)

lemma handler_demo_post:
  "handler demo_scim_env demo_world (demo_post b)
     = scim_post demo_scim_env demo_world ''org-1'' b"
  using handler_org_key [OF org_key_demo_post, of demo_world b]
  by (simp add: demo_post_def demo_request_def)

text \<open>
  C4, as stated, fails: a POST with a \<^verbatim>\<open>userName\<close> that has no membership, but with roles
  that are not role names, is answered with 400 and creates nothing.
\<close>

theorem scim_post_invalid_roles:
  "memberships_where (tables demo_world) (matches [(''email'', JStr ''dave@example.com'')]) ''org-1''
     = []
   \<and> handler demo_scim_env demo_world
        (demo_post (JObj [(''userName'', JStr ''dave@example.com''),
                          (''roles'', JArr [JStr ''ROOT''])]))
     = (scim_error 400
          ''Invalid roles provided: [...], must be one of OWNER, ADMIN, MEMBER, VIEWER, NONE'',
        demo_world)"
  by (simp add: demo_no_dave handler_demo_post)
     (simp add: scim_post_def demo_scim_env_def role_names_def)

text \<open>
  The check for an existing membership compares the \<^verbatim>\<open>userName\<close> as sent, while the user
  is upserted by the lower-cased one: for a member \<^verbatim>\<open>alice@example.com\<close> a POST of
  \<^verbatim>\<open>Alice@Example.com\<close> passes the check, and the insert of the second membership fails on
  the unique key of organization and user.
\<close>

lemma scim_post_mixed_case_userName:
  "memberships_where (tables demo_world)
      (matches [(''email'', JStr (toLowerCase demo_scim_env ''Alice@Example.com''))]) ''org-1''
     \<noteq> []
   \<and> handler demo_scim_env demo_world (demo_post (JObj [(''userName'', JStr ''Alice@Example.com'')]))
     = (scim_error 500 ''Internal server error'', demo_world)"
proof -
  have f: "find_index (matches [(''email'', JStr ''alice@example.com'')]) (tables demo_world User)
      = Some 0"
    by (simp add: demo_world_def matches_def col_def)
  have u: "tables demo_world User ! 0
      = [(''id'', JStr ''u1''), (''email'', JStr ''alice@example.com''), (''name'', JStr ''Alice'')]"
    by (simp add: demo_world_def)
  have c: "create OrganizationMembership
        [(''userId'', JStr ''u1''), (''orgId'', JStr ''org-1''), (''role'', JStr ''NONE'')] demo_world
      = Inl (UniqueConstraintFailed OrganizationMembership)"
    by (simp add: create_def defined_columns_def Let_def)
       (simp add: demo_world_def violates_def clashes_def key_of_def col_with_defaults,
        simp add: col_def)
  have "create_member demo_scim_env demo_world ''org-1'' ''Alice@Example.com'' JUndefined JUndefined
        ''NONE''
      = (internal_error, demo_world)"
    using upsert_empty_update_found [OF f] c
    by (simp add: create_member_def lower_demo u) (simp add: col_def)
  then show ?thesis
    using demo_alice
    by (simp add: lower_demo handler_demo_post)
       (simp add: scim_post_def find_or_create_def formatted_or_def js_or_def internal_error_def)
qed

lemma parse_roles_first: "\<not> invalid_roles r \<Longrightarrow> parse_roles r = Some (first_role r)"
  by (induction r rule: parse_roles.induct) (auto simp: invalid_roles_def first_role_def)

text \<open>
  C4, amended. For a POST with a valid organization-scoped key, a \<^verbatim>\<open>userName\<close> that is a
  string and not empty, and roles that are not an invalid array: when a membership of the
  organization belongs to a user whose email is the \<^verbatim>\<open>userName\<close> as sent, the answer is
  409 and the store is unchanged. When none belongs to a user whose email is the
  \<^verbatim>\<open>userName\<close> as sent or lower-cased, the ORM accepts the name, the password hashes, the
  users of the store have distinct ids that are strings, and the two ids the database
  generates next are not in use, the answer is 201 with the SCIM user: the user with the
  lower-cased email is the one that was there, or is created with the defaults of the
  schema; exactly one membership of the organization is created for it, with the first
  of the roles, or \<^verbatim>\<open>NONE\<close> without roles; and no other table changes.
\<close>

theorem scim_post_outcome:
  assumes post: "req_method req = ''POST''" and key: "org_key env req org"
    and pb: "parsed_body env req = Some b"
    and un: "fld b ''userName'' = JStr u" "u \<noteq> []"
    and roles: "\<not> invalid_roles (fld b ''roles'')"
  shows "(memberships_where (tables w) (matches [(''email'', JStr u)]) org \<noteq> []
            \<longrightarrow> handler env w req
                  = (scim_error 409 ''User with this userName already exists'', w))
       \<and> (memberships_where (tables w) (matches [(''email'', JStr u)]) org = []
           \<and> memberships_where (tables w) (matches [(''email'', JStr (toLowerCase env u))]) org = []
           \<and> optional_string (formatted_or (fld b ''name'') (fld b ''displayName''))
           \<and> (truthy (fld b ''password'') \<longrightarrow> hashPassword env (fld b ''password'') \<noteq> None)
           \<and> users_keyed w \<and> fresh_ids w
            \<longrightarrow> (\<exists>user membership w'.
                   handler env w req = (\<lparr>status = 201, body = scim_created_user user\<rparr>, w')
                   \<and> member_created w w' org (toLowerCase env u) (first_role (fld b ''roles''))
                        user membership))"
proof -
  have h: "handler env w req = scim_post env w org (req_body req)"
    using handler_org_key [OF key, of w] post by simp
  from un(1) have nn: "b \<noteq> JNull" "b \<noteq> JUndefined" by auto
  define role where "role = first_role (fld b ''roles'')"
  have role: "parse_roles (fld b ''roles'') = Some role"
    using roles unfolding role_def by (rule parse_roles_first)
  have p: "(case req_body req of JStr s \<Rightarrow> JSON_parse env s | _ \<Rightarrow> Some (req_body req)) = Some b"
    using pb by (simp add: parsed_body_def)
  have sp: "scim_post env w org (req_body req) =
      (if memberships_where (tables w) (matches [(''email'', JStr u)]) org \<noteq> []
       then (scim_error 409 ''User with this userName already exists'', w)
       else if \<not> truthy (fld b ''password'')
       then create_member env w org u (formatted_or (fld b ''name'') (fld b ''displayName''))
              JUndefined role
       else (case hashPassword env (fld b ''password'') of
               None \<Rightarrow> (internal_error, w)
             | Some hp \<Rightarrow>
                 create_member env w org u (formatted_or (fld b ''name'') (fld b ''displayName''))
                   (JStr hp) role))"
    unfolding scim_post_def p using nn un role by (simp add: find_or_create_def)
  show ?thesis
  proof (intro conjI impI)
    assume "memberships_where (tables w) (matches [(''email'', JStr u)]) org \<noteq> []"
    then show "handler env w req = (scim_error 409 ''User with this userName already exists'', w)"
      using h sp by simp
  next
    assume a: "memberships_where (tables w) (matches [(''email'', JStr u)]) org = []
           \<and> memberships_where (tables w) (matches [(''email'', JStr (toLowerCase env u))]) org = []
           \<and> optional_string (formatted_or (fld b ''name'') (fld b ''displayName''))
           \<and> (truthy (fld b ''password'') \<longrightarrow> hashPassword env (fld b ''password'') \<noteq> None)
           \<and> users_keyed w \<and> fresh_ids w"
    let ?nm = "formatted_or (fld b ''name'') (fld b ''displayName'')"
    have "\<exists>pw. (pw = JUndefined \<or> is_string pw)
        \<and> scim_post env w org (req_body req) = create_member env w org u ?nm pw role"
    proof (cases "truthy (fld b ''password'')")
      case True
      with a obtain hp where "hashPassword env (fld b ''password'') = Some hp" by auto
      with True a sp show ?thesis by (intro exI [of _ "JStr hp"]) auto
    next
      case False
      with a sp show ?thesis by (intro exI [of _ JUndefined]) auto
    qed
    then obtain pw where pw: "pw = JUndefined \<or> is_string pw"
      "scim_post env w org (req_body req) = create_member env w org u ?nm pw role"
      by blast
    from a have "\<exists>user membership w'.
           create_member env w org u ?nm pw role
             = (\<lparr>status = 201, body = scim_created_user user\<rparr>, w')
           \<and> member_created w w' org (toLowerCase env u) role user membership"
      by (intro create_member_ok pw(1)) auto
    with h pw(2)
    show "\<exists>user membership w'.
            handler env w req = (\<lparr>status = 201, body = scim_created_user user\<rparr>, w')
            \<and> member_created w w' org (toLowerCase env u) (first_role (fld b ''roles''))
                 user membership"
      unfolding role_def by auto
  qed
qed

theorem scim_post_outcome_witness:
  "handler demo_scim_env demo_world (demo_post (JObj [(''userName'', JStr ''alice@example.com'')]))
     = (scim_error 409 ''User with this userName already exists'', demo_world)
   \<and> (\<exists>user membership w'.
        handler demo_scim_env demo_world
          (demo_post (JObj [(''userName'', JStr ''Dave@Example.com''),
                            (''displayName'', JStr ''Dave''),
                            (''roles'', JArr [JStr ''ADMIN'', JStr ''VIEWER''])]))
          = (\<lparr>status = 201, body = scim_created_user user\<rparr>, w')
        \<and> col user ''email'' = JStr ''dave@example.com''
        \<and> col user ''createdAt'' = JStr ''2025-01-01T00:00:00.000Z''
        \<and> tables w' User = tables demo_world User @ [user]
        \<and> tables w' OrganizationMembership
            = tables demo_world OrganizationMembership @ [membership]
        \<and> col membership ''userId'' = col user ''id''
        \<and> col membership ''orgId'' = JStr ''org-1''
        \<and> col membership ''role'' = JStr ''ADMIN'')
   \<and> (\<exists>user membership w'.
        handler demo_scim_env demo_world
          (demo_post (JObj [(''userName'', JStr ''carol@example.com'')]))
          = (\<lparr>status = 201, body = scim_created_user user\<rparr>, w')
        \<and> col user ''id'' = JStr ''u3''
        \<and> tables w' User = tables demo_world User
        \<and> tables w' OrganizationMembership
            = tables demo_world OrganizationMembership @ [membership]
        \<and> col membership ''userId'' = JStr ''u3''
        \<and> col membership ''role'' = JStr ''NONE'')"
proof -
  let ?a = "JObj [(''userName'', JStr ''alice@example.com'')]"
  let ?d = "JObj [(''userName'', JStr ''Dave@Example.com''), (''displayName'', JStr ''Dave''),
                  (''roles'', JArr [JStr ''ADMIN'', JStr ''VIEWER''])]"
  let ?c = "JObj [(''userName'', JStr ''carol@example.com'')]"
  have m: "req_method (demo_post b) = ''POST''" for b
    by (simp add: demo_post_def demo_request_def)
  have pb: "parsed_body demo_scim_env (demo_post (JObj fs)) = Some (JObj fs)" for fs
    by (simp add: parsed_body_def demo_post_def demo_request_def)
  have c1: "handler demo_scim_env demo_world (demo_post ?a)
     = (scim_error 409 ''User with this userName already exists'', demo_world)"
    using scim_post_outcome [OF m org_key_demo_post pb, of _ "''alice@example.com''" demo_world]
      demo_alice(1)
    by (simp add: invalid_roles_def)
  have hyp: "memberships_where (tables demo_world) (matches [(''email'', JStr ''Dave@Example.com'')])
        ''org-1'' = []
      \<and> memberships_where (tables demo_world)
           (matches [(''email'', JStr (toLowerCase demo_scim_env ''Dave@Example.com''))]) ''org-1''
          = []
      \<and> optional_string (formatted_or (fld ?d ''name'') (fld ?d ''displayName''))
      \<and> (truthy (fld ?d ''password'') \<longrightarrow> hashPassword demo_scim_env (fld ?d ''password'') \<noteq> None)
      \<and> users_keyed demo_world \<and> fresh_ids demo_world"
    using demo_no_dave demo_world_ok
    by (simp add: lower_demo formatted_or_def js_or_def)
  have nr: "\<not> invalid_roles (fld ?d ''roles'')"
    by (simp add: invalid_roles_def role_names_def)
  have nd: "\<not> list_ex (\<lambda>r. col r ''email'' = JStr ''dave@example.com'') (tables demo_world User)"
    by (simp add: demo_world_def col_def)
  have df: "col (column_defaults demo_world User) ''createdAt'' = JStr ''2025-01-01T00:00:00.000Z''"
    by (simp add: demo_world_def col_def)
  from scim_post_outcome [OF m org_key_demo_post pb _ _ nr, of "''Dave@Example.com''" demo_world]
    hyp
  obtain user membership w' where r:
    "handler demo_scim_env demo_world (demo_post ?d)
       = (\<lparr>status = 201, body = scim_created_user user\<rparr>, w')"
    "member_created demo_world w' ''org-1'' ''dave@example.com''
       (first_role (fld ?d ''roles'')) user membership"
    by (auto simp: lower_demo)
  from r(2) nd df have c2: "col user ''email'' = JStr ''dave@example.com''
        \<and> col user ''createdAt'' = JStr ''2025-01-01T00:00:00.000Z''
        \<and> tables w' User = tables demo_world User @ [user]
        \<and> tables w' OrganizationMembership
            = tables demo_world OrganizationMembership @ [membership]
        \<and> col membership ''userId'' = col user ''id''
        \<and> col membership ''orgId'' = JStr ''org-1''
        \<and> col membership ''role'' = JStr ''ADMIN''"
    by (simp add: member_created_def first_role_def)
  have hyp3: "memberships_where (tables demo_world) (matches [(''email'', JStr ''carol@example.com'')])
        ''org-1'' = []
      \<and> memberships_where (tables demo_world)
           (matches [(''email'', JStr (toLowerCase demo_scim_env ''carol@example.com''))]) ''org-1''
          = []
      \<and> optional_string (formatted_or (fld ?c ''name'') (fld ?c ''displayName''))
      \<and> (truthy (fld ?c ''password'') \<longrightarrow> hashPassword demo_scim_env (fld ?c ''password'') \<noteq> None)
      \<and> users_keyed demo_world \<and> fresh_ids demo_world"
    using demo_world_ok
    by (simp add: formatted_or_def js_or_def)
       (simp add: memberships_where_def demo_world_def col_def matches_def demo_scim_env_def
          ascii_lower_def)
  have lc: "toLowerCase demo_scim_env ''carol@example.com'' = ''carol@example.com''"
    by (simp add: demo_scim_env_def ascii_lower_def)
  have nr3: "\<not> invalid_roles (fld ?c ''roles'')"
    by (simp add: invalid_roles_def)
  have ec: "list_ex (\<lambda>r. col r ''email'' = JStr ''carol@example.com'') (tables demo_world User)"
    by (simp add: demo_world_def col_def)
  have oc: "user \<in> set (tables demo_world User) \<Longrightarrow> col user ''email'' = JStr ''carol@example.com''
      \<Longrightarrow> col user ''id'' = JStr ''u3''" for user
    by (auto simp: demo_world_def col_def)
  from scim_post_outcome [OF m org_key_demo_post pb _ _ nr3, of "''carol@example.com''" demo_world]
    hyp3
  obtain user3 membership3 w3 where r3:
    "handler demo_scim_env demo_world (demo_post ?c)
       = (\<lparr>status = 201, body = scim_created_user user3\<rparr>, w3)"
    "member_created demo_world w3 ''org-1'' ''carol@example.com''
       (first_role (fld ?c ''roles'')) user3 membership3"
    by (auto simp: lc)
  from r3(2) ec have c3: "col user3 ''id'' = JStr ''u3''
        \<and> tables w3 User = tables demo_world User
        \<and> tables w3 OrganizationMembership
            = tables demo_world OrganizationMembership @ [membership3]
        \<and> col membership3 ''userId'' = JStr ''u3''
        \<and> col membership3 ''role'' = JStr ''NONE''"
    using oc [of user3] by (simp add: member_created_def first_role_def)
  from c1 r(1) c2 r3(1) c3 show ?thesis by blast
qed
section \<open>Properties of the generated objects\<close>

subsection \<open>What each loop adds to the arrays\<close>

declare event_loop.simps [simp del]
declare generation_loop.simps [simp del]
declare span_loop.simps [simp del]
declare trace_loop.simps [simp del]

lemma append_no_objects [simp]: "append_objects os no_objects = os"
  by (simp add: append_objects_def no_objects_def)

lemma append_objects_assoc:
  "append_objects (append_objects os d) e = append_objects os (append_objects d e)"
  by (simp add: append_objects_def)

lemma append_objects_sel [simp]:
  "traces (append_objects os d) = traces os @ traces d"
  "observations (append_objects os d) = observations os @ observations d"
  "scores (append_objects os d) = scores os @ scores d"
  "sessions (append_objects os d) = sessions os @ sessions d"
  "events (append_objects os d) = events os @ events d"
  "configs (append_objects os d) = configs os @ configs d"
  "comments (append_objects os d) = comments os @ comments d"
  "queueItems (append_objects os d) = queueItems os @ queueItems d"
  by (simp_all add: append_objects_def)

lemma no_objects_sel [simp]:
  "traces no_objects = []" "observations no_objects = []" "scores no_objects = []"
  "sessions no_objects = []" "events no_objects = []" "configs no_objects = []"
  "comments no_objects = []" "queueItems no_objects = []"
  by (simp_all add: no_objects_def)

lemma push_as_append:
  "os\<lparr>events := events os @ es\<rparr> = append_objects os (no_objects\<lparr>events := es\<rparr>)"
  "os\<lparr>observations := observations os @ obs\<rparr> = append_objects os (no_objects\<lparr>observations := obs\<rparr>)"
  "os\<lparr>scores := scores os @ ss\<rparr> = append_objects os (no_objects\<lparr>scores := ss\<rparr>)"
  "os\<lparr>comments := comments os @ cs\<rparr> = append_objects os (no_objects\<lparr>comments := cs\<rparr>)"
  "os\<lparr>traces := traces os @ ts\<rparr> = append_objects os (no_objects\<lparr>traces := ts\<rparr>)"
  "os\<lparr>sessions := sessions os @ zs\<rparr> = append_objects os (no_objects\<lparr>sessions := zs\<rparr>)"
  "os\<lparr>queueItems := queueItems os @ qs\<rparr> = append_objects os (no_objects\<lparr>queueItems := qs\<rparr>)"
  by (simp_all add: append_objects_def no_objects_def)

lemma child_of_event: "child_of trace spn (mk_event i j k l u trace spn)"
  by (simp add: child_of_def in_trace_def mk_event_def)

lemma event_loop_shape:
  "event_loop env i j k trace spn l os g = (os', g') \<Longrightarrow>
   \<exists>d. os' = append_objects os d \<and> only_events d \<and> list_all (child_of trace spn) (events d)"
proof (induction env i j k trace spn l os g arbitrary: os' g' rule: event_loop.induct)
  case (1 env i j k trace spn l os g)
  obtain bound g1 where b: "random env g = (bound, g1)" by (cases "random env g")
  show ?case
  proof (cases "int l < \<lfloor>bound * 2\<rfloor>")
    case False
    with 1(2) b have "os' = os" by (simp add: event_loop.simps [of env i j k trace spn l os g])
    then show ?thesis
      by (intro exI [of _ no_objects]) (simp add: only_events_def)
  next
    case True
    obtain eventTs g2 where e: "random env g1 = (eventTs, g2)" by (cases "random env g1")
    obtain uuid g3 where u: "v4 env g2 = (uuid, g3)" by (cases "v4 env g2")
    let ?ev = "mk_event i j k l uuid trace spn"
    from 1(2) b True e u
    have "event_loop env i j k trace spn (Suc l) (os\<lparr>events := events os @ [?ev]\<rparr>) g3 = (os', g')"
      by (simp add: event_loop.simps [of env i j k trace spn l os g])
    from 1(1) [OF b [symmetric] True e [symmetric] u [symmetric] this]
    obtain d where d: "os' = append_objects (os\<lparr>events := events os @ [?ev]\<rparr>) d"
      "only_events d" "list_all (child_of trace spn) (events d)" by blast
    show ?thesis
      using d child_of_event [of trace spn i j k l uuid]
      by (intro exI [of _ "append_objects (no_objects\<lparr>events := [?ev]\<rparr>) d"])
         (simp add: push_as_append append_objects_assoc only_events_def)
  qed
qed

lemma push_generation_score_shape:
  "push_generation_score env name generation trace os g = (os', g') \<Longrightarrow>
   \<exists>ss. os' = os\<lparr>scores := scores os @ ss\<rparr> \<and> list_all untyped_score ss"
proof -
  assume a: "push_generation_score env name generation trace os g = (os', g')"
  obtain r g1 where r: "random env g = (r, g1)" by (cases "random env g")
  obtain v g2 where v: "random env g1 = (v, g2)" by (cases "random env g1")
  show ?thesis
  proof (cases "r > 6 / 10")
    case True
    with a r v have "os' = os\<lparr>scores := scores os @ [mk_generation_score name v generation trace]\<rparr>"
      by (simp add: push_generation_score_def)
    then show ?thesis
      by (intro exI [of _ "[mk_generation_score name v generation trace]"])
         (simp add: untyped_score_def mk_generation_score_def)
  next
    case False
    with a r have "os' = os" by (simp add: push_generation_score_def)
    then show ?thesis by (intro exI [of _ "[]"]) simp
  qed
qed

lemma generation_body_shape:
  assumes "generation_body env pids projectId i j k trace spn os g = Inr (os', g')"
  shows "\<exists>d. os' = append_objects os d \<and> generation_delta trace spn d"
proof -
  obtain ps where ps: "pids projectId = Some ps"
    using assms by (cases "pids projectId") (auto simp: generation_body_def Let_def split: prod.splits)
  obtain rp g2 where 2: "random env (skip_draw env (skip_draw env g)) = (rp, g2)"
    by (cases "random env (skip_draw env (skip_draw env g))")
  obtain rc g3 where 3: "random env g2 = (rc, g3)" by (cases "random env g2")
  obtain rm g4 where 4: "random env g3 = (rm, g4)" by (cases "random env g3")
  obtain ri g5 where 5: "random env g4 = (ri, g5)" by (cases "random env g4")
  obtain uuid g7 where 7: "v4 env (getGenerationInputOutput env g5) = (uuid, g7)"
    by (cases "v4 env (getGenerationInputOutput env g5)")
  let ?g10 = "skip_draw env (optional_draw env (optional_draw env (optional_draw env (skip_draw env g7))))"
  let ?gen = "mk_generation i j k uuid trace spn
                (at_index (map JStr ps) (floor_nat (ri * of_nat (length ps div 2))))
                (pick models rm) (\<lfloor>rp * 1000\<rfloor> + 300) (\<lfloor>rc * 500\<rfloor> + 100)"
  let ?os1 = "os\<lparr>observations := observations os @ [?gen]\<rparr>"
  obtain os2 g11 where 11: "push_generation_score env ''quality'' ?gen trace ?os1 ?g10 = (os2, g11)"
    by (cases "push_generation_score env ''quality'' ?gen trace ?os1 ?g10")
  obtain os3 g12 where 12: "push_generation_score env ''conciseness'' ?gen trace os2 g11 = (os3, g12)"
    by (cases "push_generation_score env ''conciseness'' ?gen trace os2 g11")
  obtain rk g13 where 13: "random env g12 = (rk, g13)" by (cases "random env g12")
  let ?cs = "if rk > 8 / 10 then [mk_observation_comment ?gen trace] else []"
  let ?os4 = "os3\<lparr>comments := comments os3 @ ?cs\<rparr>"
  have res: "event_loop env i j k trace spn 0 ?os4 g13 = (os', g')"
    using assms ps 2 3 4 5 7 11 12 13
    by (simp add: generation_body_def Let_def split: if_splits)
  from push_generation_score_shape [OF 11] obtain s1 where
    s1: "os2 = ?os1\<lparr>scores := scores ?os1 @ s1\<rparr>" "list_all untyped_score s1" by blast
  from push_generation_score_shape [OF 12] obtain s2 where
    s2: "os3 = os2\<lparr>scores := scores os2 @ s2\<rparr>" "list_all untyped_score s2" by blast
  from event_loop_shape [OF res] obtain e where
    e: "os' = append_objects ?os4 e" "only_events e" "list_all (child_of trace spn) (events e)"
    by blast
  let ?d = "append_objects (no_objects\<lparr>observations := [?gen], scores := s1 @ s2, comments := ?cs\<rparr>) e"
  have "os' = append_objects os ?d"
    using e(1) s1(1) s2(1) by (simp add: append_objects_def no_objects_def)
  moreover have "child_of trace spn ?gen"
    by (simp add: child_of_def in_trace_def mk_generation_def)
  then have "generation_delta trace spn ?d"
    using e(2,3) s1(2) s2(2)
    by (simp add: generation_delta_def no_trace_level_def only_events_def)
  ultimately show ?thesis by blast
qed


lemma generation_delta_none: "generation_delta trace spn no_objects"
  by (simp add: generation_delta_def no_trace_level_def)

lemma generation_delta_append:
  "generation_delta trace spn d \<Longrightarrow> generation_delta trace spn e \<Longrightarrow>
   generation_delta trace spn (append_objects d e)"
  by (auto simp: generation_delta_def no_trace_level_def)

lemma generation_loop_shape:
  "generation_loop env pids projectId i j trace spn k os g = Inr (os', g') \<Longrightarrow>
   \<exists>d. os' = append_objects os d \<and> generation_delta trace spn d"
proof (induction env pids projectId i j trace spn k os g arbitrary: os' g'
    rule: generation_loop.induct)
  case (1 env pids projectId i j trace spn k os g)
  obtain bound g1 where b: "random env g = (bound, g1)" by (cases "random env g")
  show ?case
  proof (cases "int k < \<lfloor>bound * 2\<rfloor> + 1")
    case False
    with 1(2) b have "os' = os"
      by (simp add: generation_loop.simps [of env pids projectId i j trace spn k os g])
    then show ?thesis
      by (intro exI [of _ no_objects]) (simp add: generation_delta_none)
  next
    case True
    from 1(2) b True obtain os1 g2 where
      body: "generation_body env pids projectId i j k trace spn os g1 = Inr (os1, g2)"
      and rest: "generation_loop env pids projectId i j trace spn (Suc k) os1 g2 = Inr (os', g')"
      by (auto simp: generation_loop.simps [of env pids projectId i j trace spn k os g]
          split: sum.splits)
    from generation_body_shape [OF body] obtain d where
      d: "os1 = append_objects os d" "generation_delta trace spn d" by blast
    from 1(1) [OF b [symmetric] True body _ rest] obtain e where
      e: "os' = append_objects os1 e" "generation_delta trace spn e" by auto
    show ?thesis
      using d e
      by (intro exI [of _ "append_objects d e"])
         (simp add: append_objects_assoc generation_delta_append)
  qed
qed

lemma pick_mem:
  assumes "random env g = (r, g')" and "xs \<noteq> []"
  shows "pick xs r \<in> set xs"
proof -
  from assms(1) have "0 \<le> r \<and> r < 1" by (rule random_range)
  with assms(2) have "\<lfloor>r * of_nat (length xs)\<rfloor> < int (length xs)"
    using floor_scaled [of r "length xs"] by auto
  moreover have "nat z < n" if "z < int n" "0 < n" for z n
    using that by arith
  ultimately have "floor_nat (r * of_nat (length xs)) < length xs"
    using assms(2) unfolding floor_nat_def by blast
  then show ?thesis by (simp add: pick_def at_index_def)
qed

lemma choose_parent_known:
  assumes "choose_parent env ids g = (parent, g')"
  shows "parent = None \<or> (\<exists>p. parent = Some p \<and> p \<in> set ids)"
proof (cases "ids = []")
  case True
  with assms show ?thesis by (simp add: choose_parent_def)
next
  case False
  obtain r g1 where r: "random env g = (r, g1)" by (cases "random env g")
  obtain r2 g2 where r2: "random env g1 = (r2, g2)" by (cases "random env g1")
  from pick_mem [OF r2 False] assms r r2 False show ?thesis
    by (auto simp: choose_parent_def split: if_splits)
qed

lemma span_delta_none: "span_delta trace ids no_objects"
  by (simp add: span_delta_def no_trace_level_def)

lemma parent_known_mono:
  "parent_known trace ids obs ob \<Longrightarrow> set ids \<subseteq> set ids' \<union> {x. \<exists>p \<in> set obs'. fld p ''id'' = x \<and> fld p ''traceId'' = fld trace ''id''} \<Longrightarrow>
   set obs \<subseteq> set obs' \<Longrightarrow> parent_known trace ids' obs' ob"
  by (auto simp: parent_known_def list_ex_iff)

lemma span_step_delta:
  assumes spn: "in_trace trace spn" "parent_known trace ids [] spn"
    and d: "generation_delta trace spn d"
    and e: "span_delta trace (ids @ [fld spn ''id'']) e"
  shows "span_delta trace ids
           (append_objects (append_objects (no_objects\<lparr>observations := [spn]\<rparr>) d) e)"
proof -
  let ?obs = "spn # observations d @ observations e"
  have s: "fld spn ''traceId'' = fld trace ''id''" using spn(1) by (simp add: in_trace_def)
  have 1: "parent_known trace ids ?obs spn"
    using spn(2) by (rule parent_known_mono) auto
  have 2: "parent_known trace ids ?obs ob" if "child_of trace spn ob" for ob
    using that s by (auto simp: parent_known_def child_of_def)
  have 3: "parent_known trace ids ?obs ob"
    if "parent_known trace (ids @ [fld spn ''id'']) (observations e) ob" for ob
    using that s by (rule_tac parent_known_mono) auto
  show ?thesis
    using spn(1) d e 1 2 3
    by (auto simp: span_delta_def generation_delta_def no_trace_level_def list_all_iff
        child_of_def)
qed



lemma mk_span_facts:
  "in_trace trace (mk_span i j uuid trace parent)"
  "fld (mk_span i j uuid trace None) ''parentObservationId'' = JUndefined"
  "fld (mk_span i j uuid trace (Some p)) ''parentObservationId'' = p"
  by (simp_all add: in_trace_def mk_span_def)

lemma span_loop_shape:
  "span_loop env pids projectId i trace j ids os g = Inr (os', g') \<Longrightarrow>
   \<exists>d. os' = append_objects os d \<and> span_delta trace ids d"
proof (induction "10 - j" arbitrary: j ids os g os' g')
  case 0
  obtain bound g1 where b: "random env g = (bound, g1)" by (cases "random env g")
  have "\<lfloor>bound * 10\<rfloor> < 10"
    using random_below [of bound g1 env g 10] b by simp
  with 0(1) have "\<not> int j < \<lfloor>bound * 10\<rfloor> + 1" by linarith
  with 0(2) b have "os' = os"
    by (simp add: span_loop.simps [of env pids projectId i trace j ids os g])
  then show ?case
    by (intro exI [of _ no_objects]) (simp add: span_delta_none)
next
  case (Suc n)
  obtain bound g1 where b: "random env g = (bound, g1)" by (cases "random env g")
  show ?case
  proof (cases "int j < \<lfloor>bound * 10\<rfloor> + 1")
    case False
    with Suc(3) b have "os' = os"
      by (simp add: span_loop.simps [of env pids projectId i trace j ids os g])
    then show ?thesis
      by (intro exI [of _ no_objects]) (simp add: span_delta_none)
  next
    case True
    obtain uuid g3 where u: "v4 env (skip_draw env (skip_draw env g1)) = (uuid, g3)"
      by (cases "v4 env (skip_draw env (skip_draw env g1))")
    obtain parent g4 where p: "choose_parent env ids g3 = (parent, g4)"
      by (cases "choose_parent env ids g3")
    let ?spn = "mk_span i j uuid trace parent"
    let ?os1 = "os\<lparr>observations := observations os @ [?spn]\<rparr>"
    from Suc(3) b True u p obtain os2 g5 where
      gens: "generation_loop env pids projectId i j trace ?spn 0 ?os1 g4 = Inr (os2, g5)"
      and rest: "span_loop env pids projectId i trace (Suc j) (ids @ [fld ?spn ''id'']) os2 g5
                  = Inr (os', g')"
      by (auto simp: span_loop.simps [of env pids projectId i trace j ids os g] Let_def
          split: sum.splits)
    from generation_loop_shape [OF gens] obtain d where
      d: "os2 = append_objects ?os1 d" "generation_delta trace ?spn d" by blast
    from Suc(2) have "n = 10 - Suc j" by simp
    from Suc(1) [OF this rest] obtain e where
      e: "os' = append_objects os2 e" "span_delta trace (ids @ [fld ?spn ''id'']) e" by blast
    have pk: "parent_known trace ids [] ?spn"
      using choose_parent_known [OF p] by (auto simp: parent_known_def mk_span_facts)
    have "span_delta trace ids
           (append_objects (append_objects (no_objects\<lparr>observations := [?spn]\<rparr>) d) e)"
      using mk_span_facts(1) pk d(2) e(2) by (rule span_step_delta)
    moreover have "os' = append_objects os
           (append_objects (append_objects (no_objects\<lparr>observations := [?spn]\<rparr>) d) e)"
      using d(1) e(1) by (simp add: push_as_append append_objects_assoc)
    ultimately show ?thesis by blast
  qed
qed


lemma show_nat_digit: "n < 10 \<Longrightarrow> show_nat n = [digit_char n]"
  by simp

lemma mk_session_is_session: "is_session a (mk_session i (project_of a i))"
proof -
  have "i mod 3 = 0 \<or> i mod 3 = 1 \<or> i mod 3 = 2" by arith
  then have "JStr (''session-'' @ show_nat (i mod 3)) \<in> set session_names"
    by (auto simp: session_names_def digit_char_def)
  then show ?thesis
    by (auto simp: is_session_def mk_session_def project_of_def list_ex_iff)
qed

lemma mk_trace_facts:
  "fld (mk_trace i uuid projectId tags ru rin rout session) ''projectId'' = projectId"
  "fld (mk_trace i uuid projectId tags ru rin rout session) ''id'' = JStr (''trace-'' @ uuid)"
  by (simp_all add: mk_trace_def)

lemma queueItem_of:
  assumes "fld trace ''projectId'' = projectId"
  shows "list_all (queue_item_of a trace) (queueItem (queueIds a) projectId trace r)"
  using assms by (auto simp: queueItem_def queue_item_of_def split: option.splits list.splits)

lemma choose_config_mem: "choose_config cs n = Some c \<Longrightarrow> c \<in> set cs"
  by (auto simp: choose_config_def split: if_splits)

lemma annotation_score_populated:
  assumes "fld trace ''projectId'' = projectId"
    and "config = choose_config (project_configs a projectId) n"
  shows "score_populated a (mk_annotation_score i trace config v)"
proof (cases config)
  case None
  then show ?thesis
    by (simp add: score_populated_def mk_annotation_score_def scoreNumericAndStringValue_def)
next
  case (Some c)
  with assms(2) have mem: "c \<in> set (project_configs a projectId)"
    using choose_config_mem [of "project_configs a projectId" n c] by simp
  show ?thesis
  proof (cases "dataType c")
    case NUMERIC
    with Some show ?thesis
      by (simp add: score_populated_def mk_annotation_score_def scoreNumericAndStringValue_def)
  next
    case CATEGORICAL
    with Some mem assms(1) show ?thesis
      by (auto simp: score_populated_def mk_annotation_score_def scoreNumericAndStringValue_def
          resolved_by_config_def list_ex_iff)
  next
    case BOOLEAN
    with Some show ?thesis
      by (simp add: score_populated_def mk_annotation_score_def scoreNumericAndStringValue_def)
  qed
qed

lemma traceScores_populated:
  assumes "traceScores env i trace config v g = (ts, g')"
    and "fld trace ''projectId'' = projectId"
    and "config = choose_config (project_configs a projectId) n"
  shows "list_all (score_populated a) ts"
proof -
  have s: "score_populated a (mk_sentiment_score trace x)" for x
    by (simp add: score_populated_def mk_sentiment_score_def)
  have c: "score_populated a (mk_completeness_score trace b)" for b
    by (simp add: score_populated_def mk_completeness_score_def)
  from assms(1) show ?thesis
    using annotation_score_populated [OF assms(2,3), of i v] s c
    by (auto simp: traceScores_def Let_def split: prod.splits if_splits)
qed


lemma trace_body_shape:
  assumes "trace_body env a i os g = Inr (os', g')"
  shows "\<exists>d. os' = append_objects os d \<and> trace_delta a i d"
proof -
  let ?p = "project_of a i"
  have p: "(if i mod 2 = 0 then col (project1 a) ''id'' else col (project2 a) ''id'') = ?p"
    by (simp add: project_of_def even_iff_mod_2_eq_zero)
  obtain re g2 where 2: "random env (skip_draw env g) = (re, g2)"
    by (cases "random env (skip_draw env g)")
  obtain rc g3 where 3: "random env g2 = (rc, g3)" by (cases "random env g2")
  obtain rs g4 where 4: "random env g3 = (rs, g4)" by (cases "random env g3")
  obtain uuid g5 where 5: "v4 env g4 = (uuid, g5)" by (cases "v4 env g4")
  obtain ru g6 where 6: "random env g5 = (ru, g6)" by (cases "random env g5")
  obtain rin g7 where 7: "random env g6 = (rin, g7)" by (cases "random env g6")
  obtain rout g8 where 8: "random env g7 = (rout, g8)" by (cases "random env g7")
  obtain ri g9 where 9: "random env g8 = (ri, g9)" by (cases "random env g8")
  obtain rv g10 where 10: "random env g9 = (rv, g10)" by (cases "random env g9")
  obtain rq g11 where 11: "random env g10 = (rq, g11)" by (cases "random env g10")
  let ?session = "if rs > 3 / 10 then Some (mk_session i ?p) else None"
  let ?tags = "filter (\<lambda>tag. tag \<noteq> JNull) [pick (envTags a) re, pick (colorTags a) rc]"
  let ?trace = "mk_trace i uuid ?p ?tags ru rin rout ?session"
  let ?config = "choose_config (project_configs a ?p) (floor_nat (ri * 3))"
  let ?v = "of_int \<lfloor>rv * 2\<rfloor> :: rat"
  obtain ts g12 where 12: "traceScores env i ?trace ?config ?v g11 = (ts, g12)"
    by (cases "traceScores env i ?trace ?config ?v g11")
  obtain cs g13 where 13: "trace_comment env i ?trace g12 = (cs, g13)"
    by (cases "trace_comment env i ?trace g12")
  let ?ss = "case ?session of Some s \<Rightarrow> [s] | None \<Rightarrow> []"
  let ?qs = "queueItem (queueIds a) ?p ?trace rq"
  let ?pre = "\<lparr>traces = [?trace], observations = [], scores = ts, sessions = ?ss, events = [],
               configs = [], comments = cs, queueItems = ?qs\<rparr>"
  let ?os1 = "case ?session of Some s \<Rightarrow> os\<lparr>sessions := sessions os @ [s]\<rparr> | None \<Rightarrow> os"
  let ?os2 = "?os1\<lparr>traces := traces ?os1 @ [?trace]\<rparr>"
  let ?os3 = "?os2\<lparr>queueItems := queueItems ?os2 @ ?qs\<rparr>"
  let ?os4 = "?os3\<lparr>comments := comments ?os3 @ cs, scores := scores ?os3 @ ts\<rparr>"
  from assms have r0: "span_loop env (promptIds a) ?p i ?trace 0 [] ?os4 g13 = Inr (os', g')"
    by (simp only: trace_body_def Let_def p 2 3 4 5 6 7 8 9 10 11 12 13 prod.case
        project_configs_def [symmetric])
  have eq: "?os4 = append_objects os ?pre"
    by (cases "rs > 3 / 10") (simp_all add: append_objects_def)
  have res: "span_loop env (promptIds a) ?p i ?trace 0 [] (append_objects os ?pre) g13
               = Inr (os', g')"
    using r0 unfolding eq .
  from span_loop_shape [OF res] obtain e where
    e: "os' = append_objects (append_objects os ?pre) e" "span_delta ?trace [] e" by blast
  have tp: "fld ?trace ''projectId'' = ?p" by (rule mk_trace_facts)
  have "trace_delta a i (append_objects ?pre e)"
    using e(2) queueItem_of [OF tp, of a rq] traceScores_populated [OF 12 tp refl]
      mk_session_is_session [of a i] tp
    by (auto simp: trace_delta_def span_delta_def no_trace_level_def list_all_iff
        untyped_score_def score_populated_def)
  with e(1) show ?thesis
    by (intro exI [of _ "append_objects ?pre e"]) (simp add: append_objects_assoc)
qed

lemma generation_body_total:
  "pids projectId \<noteq> None \<Longrightarrow>
   \<exists>r. generation_body env pids projectId i j k trace spn os g = Inr r"
  by (auto simp: generation_body_def Let_def split: prod.splits)

lemma generation_loop_total:
  "pids projectId \<noteq> None \<Longrightarrow>
   \<exists>r. generation_loop env pids projectId i j trace spn k os g = Inr r"
proof (induction "2 - k" arbitrary: k os g)
  case 0
  obtain bound g1 where b: "random env g = (bound, g1)" by (cases "random env g")
  have "\<lfloor>bound * 2\<rfloor> < 2"
    using random_below [of bound g1 env g 2] b by simp
  with 0(1) have "\<not> int k < \<lfloor>bound * 2\<rfloor> + 1" by linarith
  with b show ?case
    by (simp add: generation_loop.simps [of env pids projectId i j trace spn k os g])
next
  case (Suc n)
  obtain bound g1 where b: "random env g = (bound, g1)" by (cases "random env g")
  from generation_body_total [of pids projectId, OF Suc(3)] obtain os1 g2 where
    body: "generation_body env pids projectId i j k trace spn os g1 = Inr (os1, g2)"
    by (metis surj_pair)
  from Suc(2) have "n = 2 - Suc k" by simp
  from Suc(1) [OF this Suc(3), of os1 g2] b body show ?case
    by (simp add: generation_loop.simps [of env pids projectId i j trace spn k os g])
qed

lemma span_loop_total:
  "pids projectId \<noteq> None \<Longrightarrow>
   \<exists>r. span_loop env pids projectId i trace j ids os g = Inr r"
proof (induction "10 - j" arbitrary: j ids os g)
  case 0
  obtain bound g1 where b: "random env g = (bound, g1)" by (cases "random env g")
  have "\<lfloor>bound * 10\<rfloor> < 10"
    using random_below [of bound g1 env g 10] b by simp
  with 0(1) have "\<not> int j < \<lfloor>bound * 10\<rfloor> + 1" by linarith
  with b show ?case
    by (simp add: span_loop.simps [of env pids projectId i trace j ids os g])
next
  case (Suc n)
  obtain bound g1 where b: "random env g = (bound, g1)" by (cases "random env g")
  obtain uuid g3 where u: "v4 env (skip_draw env (skip_draw env g1)) = (uuid, g3)"
    by (cases "v4 env (skip_draw env (skip_draw env g1))")
  obtain parent g4 where p: "choose_parent env ids g3 = (parent, g4)"
    by (cases "choose_parent env ids g3")
  let ?spn = "mk_span i j uuid trace parent"
  from generation_loop_total [of pids projectId, OF Suc(3)] obtain os2 g5 where
    gens: "generation_loop env pids projectId i j trace ?spn 0
             (os\<lparr>observations := observations os @ [?spn]\<rparr>) g4 = Inr (os2, g5)"
    by (metis surj_pair)
  from Suc(2) have "n = 10 - Suc j" by simp
  from Suc(1) [OF this Suc(3), of "ids @ [fld ?spn ''id'']" os2 g5] b u p gens show ?case
    by (simp add: span_loop.simps [of env pids projectId i trace j ids os g] Let_def)
qed

lemma trace_body_unfold:
  "\<exists>trace os4 g13. trace_body env a i os g
      = span_loop env (promptIds a) (project_of a i) i trace 0 [] os4 g13"
proof -
  let ?p = "project_of a i"
  have p: "(if i mod 2 = 0 then col (project1 a) ''id'' else col (project2 a) ''id'') = ?p"
    by (simp add: project_of_def even_iff_mod_2_eq_zero)
  obtain re g2 where 2: "random env (skip_draw env g) = (re, g2)"
    by (cases "random env (skip_draw env g)")
  obtain rc g3 where 3: "random env g2 = (rc, g3)" by (cases "random env g2")
  obtain rs g4 where 4: "random env g3 = (rs, g4)" by (cases "random env g3")
  obtain uuid g5 where 5: "v4 env g4 = (uuid, g5)" by (cases "v4 env g4")
  obtain ru g6 where 6: "random env g5 = (ru, g6)" by (cases "random env g5")
  obtain rin g7 where 7: "random env g6 = (rin, g7)" by (cases "random env g6")
  obtain rout g8 where 8: "random env g7 = (rout, g8)" by (cases "random env g7")
  obtain ri g9 where 9: "random env g8 = (ri, g9)" by (cases "random env g8")
  obtain rv g10 where 10: "random env g9 = (rv, g10)" by (cases "random env g9")
  obtain rq g11 where 11: "random env g10 = (rq, g11)" by (cases "random env g10")
  let ?session = "if rs > 3 / 10 then Some (mk_session i ?p) else None"
  let ?tags = "filter (\<lambda>tag. tag \<noteq> JNull) [pick (envTags a) re, pick (colorTags a) rc]"
  let ?trace = "mk_trace i uuid ?p ?tags ru rin rout ?session"
  let ?config = "choose_config (project_configs a ?p) (floor_nat (ri * 3))"
  let ?v = "of_int \<lfloor>rv * 2\<rfloor> :: rat"
  obtain ts g12 where 12: "traceScores env i ?trace ?config ?v g11 = (ts, g12)"
    by (cases "traceScores env i ?trace ?config ?v g11")
  obtain cs g13 where 13: "trace_comment env i ?trace g12 = (cs, g13)"
    by (cases "trace_comment env i ?trace g12")
  let ?qs = "queueItem (queueIds a) ?p ?trace rq"
  let ?os1 = "case ?session of Some s \<Rightarrow> os\<lparr>sessions := sessions os @ [s]\<rparr> | None \<Rightarrow> os"
  let ?os2 = "?os1\<lparr>traces := traces ?os1 @ [?trace]\<rparr>"
  let ?os3 = "?os2\<lparr>queueItems := queueItems ?os2 @ ?qs\<rparr>"
  let ?os4 = "?os3\<lparr>comments := comments ?os3 @ cs, scores := scores ?os3 @ ts\<rparr>"
  have "trace_body env a i os g = span_loop env (promptIds a) ?p i ?trace 0 [] ?os4 g13"
    by (simp only: trace_body_def Let_def p 2 3 4 5 6 7 8 9 10 11 12 13 prod.case
        project_configs_def [symmetric])
  then show ?thesis by blast
qed

lemma trace_body_total:
  assumes "promptIds a (project_of a i) \<noteq> None"
  shows "\<exists>r. trace_body env a i os g = Inr r"
proof -
  from trace_body_unfold [of env a i os g] obtain trace os4 g13 where
    "trace_body env a i os g = span_loop env (promptIds a) (project_of a i) i trace 0 [] os4 g13"
    by blast
  with span_loop_total [of "promptIds a" "project_of a i", OF assms] show ?thesis by simp
qed

lemma trace_loop_total:
  assumes "promptIds a (col (project1 a) ''id'') \<noteq> None"
    and "promptIds a (col (project2 a) ''id'') \<noteq> None"
  shows "\<exists>r. trace_loop env a n i os g = Inr r"
proof (induction "n - i" arbitrary: i os g)
  case 0
  then show ?case by (simp add: trace_loop.simps [of env a n i os g])
next
  case (Suc m)
  have "promptIds a (project_of a i) \<noteq> None"
    using assms by (simp add: project_of_def)
  from trace_body_total [OF this] obtain os1 g1 where
    body: "trace_body env a i os g = Inr (os1, g1)" by (metis surj_pair)
  from Suc(2) have "m = n - Suc i" by simp
  from Suc(1) [OF this, of os1 g1] body show ?case
    by (simp add: trace_loop.simps [of env a n i os g])
qed

lemma belongs_mono:
  "belongs d ob \<Longrightarrow> set (traces d) \<subseteq> set (traces e) \<Longrightarrow>
   set (observations d) \<subseteq> set (observations e) \<Longrightarrow> belongs e ob"
  by (auto simp: belongs_def list_ex_iff parent_known_def)

lemma all_delta_none: "n \<le> i \<Longrightarrow> all_delta a i n no_objects"
  by (simp add: all_delta_def)

lemma all_delta_step:
  assumes d: "trace_delta a i d" and e: "all_delta a (Suc i) n e" and lt: "i < n"
  shows "all_delta a i n (append_objects d e)"
proof -
  from d obtain t where t: "traces d = [t]"
    by (cases "traces d") (auto simp: trace_delta_def)
  have len: "length (traces (append_objects d e)) = n - i"
    using t e lt by (simp add: all_delta_def)
  have proj: "fld (traces (append_objects d e) ! k) ''projectId'' = project_of a (i + k)"
    if "k < n - i" for k
  proof (cases k)
    case 0
    with d t show ?thesis by (simp add: trace_delta_def)
  next
    case (Suc k')
    with that have "k' < n - Suc i" by simp
    with e have "fld (traces e ! k') ''projectId'' = project_of a (Suc i + k')"
      by (simp add: all_delta_def list_all_iff)
    with Suc t show ?thesis by simp
  qed
  have q: "list_ex (\<lambda>t. queue_item_of a t q) (traces (append_objects d e))"
    if "q \<in> set (queueItems d) \<or> q \<in> set (queueItems e)" for q
    using that d e t by (auto simp: trace_delta_def all_delta_def list_all_iff list_ex_iff)
  have b1: "belongs (append_objects d e) ob"
    if "ob \<in> set (observations d @ events d)" for ob
  proof -
    from that d t have "belongs d ob"
      by (auto simp: trace_delta_def belongs_def list_all_iff)
    then show ?thesis by (rule belongs_mono) auto
  qed
  have b2: "belongs (append_objects d e) ob"
    if "ob \<in> set (observations e @ events e)" for ob
  proof -
    from that e have "belongs e ob" by (auto simp: all_delta_def list_all_iff)
    then show ?thesis by (rule belongs_mono) auto
  qed
  show ?thesis
    unfolding all_delta_def
    using len proj q b1 b2 d e
    by (auto simp: list_all_iff trace_delta_def all_delta_def)
qed

lemma trace_loop_shape:
  "trace_loop env a n i os g = Inr (os', g') \<Longrightarrow>
   \<exists>d. os' = append_objects os d \<and> all_delta a i n d"
proof (induction "n - i" arbitrary: i os g)
  case 0
  then have "os' = os" by (simp add: trace_loop.simps [of env a n i os g])
  with 0 show ?case
    by (intro exI [of _ no_objects]) (simp add: all_delta_none)
next
  case (Suc m)
  then have lt: "i < n" by simp
  with Suc(3) obtain os1 g1 where
    body: "trace_body env a i os g = Inr (os1, g1)"
    and rest: "trace_loop env a n (Suc i) os1 g1 = Inr (os', g')"
    by (auto simp: trace_loop.simps [of env a n i os g] split: sum.splits)
  from trace_body_shape [OF body] obtain d where
    d: "os1 = append_objects os d" "trace_delta a i d" by blast
  from Suc(2) have "m = n - Suc i" by simp
  from Suc(1) [OF this rest] obtain e where
    e: "os' = append_objects os1 e" "all_delta a (Suc i) n e" by blast
  show ?case
    using d e all_delta_step [OF d(2) e(2) lt]
    by (intro exI [of _ "append_objects d e"]) (simp add: append_objects_assoc)
qed

end
